theory Spec2Isabelle
  imports Main "HOL-Library.Sublist"
begin

section \<open>Representation of Python values\<close>

text \<open>
  A Python \<open>str\<close> is represented by the \<^typ>\<open>string\<close> of its UTF-8 bytes. Equality,
  \<open>startswith\<close>, slicing behind an ASCII prefix, splitting at an ASCII separator and the
  substring test \<open>in\<close> act on that representation exactly as they act on the code
  points. Counters are natural numbers (they are only ever incremented). A \<open>dict\<close> is an
  association list in insertion order. The platform (\<open>os.name == 'nt'\<close>) is the Boolean
  parameter \<open>nt\<close>; \<open>os.path.basename\<close> and \<open>str.lower\<close> are parameters \<open>basename\<close> and
  \<open>lower\<close> of the functions that call them.
\<close>

text \<open>A value that is either \<open>None\<close> or a \<open>str\<close>.\<close>

datatype pyval = PyNone | PyStr string

text \<open>The exceptions the modelled code can meet; each is caught where the source catches it.\<close>

datatype exn = AttributeError | TypeError | ServerError

text \<open>Python truthiness of an optional string: \<open>None\<close> and \<open>''\<close> are false.\<close>

fun truthy :: "string option \<Rightarrow> bool" where
  "truthy None = False"
| "truthy (Some s) = (s \<noteq> [])"

text \<open>\<open>not v\<close> for a value that is \<open>None\<close> or a \<open>str\<close>.\<close>

fun py_not :: "pyval \<Rightarrow> bool" where
  "py_not PyNone = True"
| "py_not (PyStr s) = (s = [])"

text \<open>
  A rating key as Python holds it: plexapi gives a track's \<open>ratingKey\<close> as an \<open>int\<close>, and
  SQLite returns the \<open>TEXT\<close> column \<open>plex_rating_key\<close> as \<open>str\<close>. An \<open>int\<close> and a \<open>str\<close> are
  never equal in Python, which the two constructors express.
\<close>

datatype pykey = KeyInt int | KeyStr string

text \<open>The decimal digits of a natural number, and \<open>str(i)\<close> for an \<open>int\<close>.\<close>

fun decimal :: "nat \<Rightarrow> string" where
  "decimal n =
     (if n < 10 then [char_of (0x30 + n)]
      else decimal (n div 10) @ [char_of (0x30 + n mod 10)])"

definition int_text :: "int \<Rightarrow> string" where
  "int_text i = (if i < 0 then CHR ''-'' # decimal (nat (- i)) else decimal (nat i))"

text \<open>
  The value SQLite stores in, or compares with, a column of \<open>TEXT\<close> affinity when the
  statement binds a key: an integer becomes its decimal text, a text stays as it is.
\<close>

fun sqlite_text :: "pykey \<Rightarrow> string" where
  "sqlite_text (KeyInt i) = int_text i"
| "sqlite_text (KeyStr s) = s"

text \<open>
  Assignment \<open>d[k] = v\<close> to a \<open>dict\<close>: an existing key keeps its position and gets the
  new value, a new key goes to the end.
\<close>

fun dict_set :: "('k \<times> 'v) list \<Rightarrow> 'k \<Rightarrow> 'v \<Rightarrow> ('k \<times> 'v) list" where
  "dict_set [] k v = [(k, v)]"
| "dict_set ((k', v') # rest) k v =
     (if k' = k then (k, v) # rest else (k', v') # dict_set rest k v)"

section \<open>Library functions the source calls\<close>

text \<open>\<open>posixpath.basename\<close>: everything after the last \<open>/\<close>.\<close>

definition posix_basename :: "string \<Rightarrow> string" where
  "posix_basename p = rev (takeWhile (\<lambda>c. c \<noteq> CHR ''/'') (rev p))"

text \<open>
  The first component of \<open>posixpath.splitext\<close>: the path without its extension. The
  extension starts at the last dot of the last path segment, unless that dot belongs to
  the segment's leading dots.
\<close>

definition posix_splitext_root :: "string \<Rightarrow> string" where
  "posix_splitext_root p =
     (if CHR ''.'' \<in> set (dropWhile (\<lambda>c. c = CHR ''.'') (posix_basename p))
      then rev (tl (dropWhile (\<lambda>c. c \<noteq> CHR ''.'') (rev p)))
      else p)"

text \<open>\<open>str.lower\<close> restricted to ASCII letters; used for concrete inputs only.\<close>

definition ascii_lower :: "string \<Rightarrow> string" where
  "ascii_lower s =
     map (\<lambda>c. case map_of (zip ''ABCDEFGHIJKLMNOPQRSTUVWXYZ'' ''abcdefghijklmnopqrstuvwxyz'') c of
                 Some l \<Rightarrow> l | None \<Rightarrow> c) s"

text \<open>\<open>str.split(sep, maxsplit)\<close> for a separator of one character.\<close>

fun py_split :: "char \<Rightarrow> nat \<Rightarrow> string \<Rightarrow> string list" where
  "py_split sep 0 s = [s]"
| "py_split sep (Suc n) s =
     (if sep \<in> set s
      then takeWhile (\<lambda>c. c \<noteq> sep) s # py_split sep n (tl (dropWhile (\<lambda>c. c \<noteq> sep) s))
      else [s])"

subsection \<open>\<open>urllib.parse.unquote\<close>\<close>

text \<open>\<open>lo \<le> c \<le> hi\<close> on the byte value of a character.\<close>

definition in_range :: "nat \<Rightarrow> nat \<Rightarrow> char \<Rightarrow> bool" where
  "in_range lo hi c = (lo \<le> of_char c \<and> of_char c \<le> hi)"

definition is_ascii :: "char \<Rightarrow> bool" where
  "is_ascii c = in_range 0 127 c"

text \<open>
  The table \<open>_hextobyte\<close>: two characters of \<open>0123456789ABCDEFabcdef\<close> give the byte they
  denote; any other pair is missing from the table.
\<close>

definition hex_value :: "char \<Rightarrow> nat option" where
  "hex_value c =
     (if in_range 0x30 0x39 c then Some (of_char c - 0x30)
      else if in_range 0x41 0x46 c then Some (of_char c - 0x41 + 10)
      else if in_range 0x61 0x66 c then Some (of_char c - 0x61 + 10)
      else None)"

definition hextobyte :: "char \<Rightarrow> char \<Rightarrow> char option" where
  "hextobyte a b =
     (case hex_value a of
        None \<Rightarrow> None
      | Some x \<Rightarrow> (case hex_value b of None \<Rightarrow> None | Some y \<Rightarrow> Some (char_of (16 * x + y))))"

text \<open>
  \<open>unquote_to_bytes\<close> on ASCII text. The library splits the text at \<open>%\<close> and replaces
  the first two characters of each later piece when they are in the table, and puts the
  \<open>%\<close> back otherwise; scanning from the left does the same.
\<close>

fun unquote_to_bytes :: "string \<Rightarrow> string" where
  "unquote_to_bytes (c # a # b # rest) =
     (if c = CHR ''%''
      then (case hextobyte a b of
              Some byte \<Rightarrow> byte # unquote_to_bytes rest
            | None \<Rightarrow> c # unquote_to_bytes (a # b # rest))
      else c # unquote_to_bytes (a # b # rest))"
| "unquote_to_bytes (c # rest) = c # unquote_to_bytes rest"
| "unquote_to_bytes [] = []"

text \<open>
  \<open>bytes.decode('utf-8', 'replace')\<close>, given on the UTF-8 bytes of its result: a
  well-formed sequence is kept, and each maximal ill-formed prefix of a sequence (or a
  byte that can start none) becomes U+FFFD.
\<close>

definition replacement_character :: string where
  "replacement_character = [char_of (0xEF::nat), char_of (0xBF::nat), char_of (0xBD::nat)]"

definition is_continuation :: "char \<Rightarrow> bool" where
  "is_continuation c = in_range 0x80 0xBF c"

text \<open>The range of the second byte of a three-byte and of a four-byte sequence.\<close>

definition second_of_three :: "char \<Rightarrow> char \<Rightarrow> bool" where
  "second_of_three b0 b1 =
     (if of_char b0 = (0xE0::nat) then in_range 0xA0 0xBF b1
      else if of_char b0 = (0xED::nat) then in_range 0x80 0x9F b1
      else is_continuation b1)"

definition second_of_four :: "char \<Rightarrow> char \<Rightarrow> bool" where
  "second_of_four b0 b1 =
     (if of_char b0 = (0xF0::nat) then in_range 0x90 0xBF b1
      else if of_char b0 = (0xF4::nat) then in_range 0x80 0x8F b1
      else is_continuation b1)"

fun utf8_replace :: "string \<Rightarrow> string" where
  "utf8_replace [] = []"
| "utf8_replace (b0 # bs) =
     (if is_ascii b0 then b0 # utf8_replace bs
      else if in_range 0xC2 0xDF b0 then
        (case bs of
           [] \<Rightarrow> replacement_character
         | b1 # r1 \<Rightarrow>
             if is_continuation b1 then b0 # b1 # utf8_replace r1
             else replacement_character @ utf8_replace bs)
      else if in_range 0xE0 0xEF b0 then
        (case bs of
           [] \<Rightarrow> replacement_character
         | b1 # r1 \<Rightarrow>
             if \<not> second_of_three b0 b1 then replacement_character @ utf8_replace bs
             else (case r1 of
                     [] \<Rightarrow> replacement_character
                   | b2 # r2 \<Rightarrow>
                       if is_continuation b2 then b0 # b1 # b2 # utf8_replace r2
                       else replacement_character @ utf8_replace r1))
      else if in_range 0xF0 0xF4 b0 then
        (case bs of
           [] \<Rightarrow> replacement_character
         | b1 # r1 \<Rightarrow>
             if \<not> second_of_four b0 b1 then replacement_character @ utf8_replace bs
             else (case r1 of
                     [] \<Rightarrow> replacement_character
                   | b2 # r2 \<Rightarrow>
                       if \<not> is_continuation b2 then replacement_character @ utf8_replace r1
                       else (case r2 of
                               [] \<Rightarrow> replacement_character
                             | b3 # r3 \<Rightarrow>
                                 if is_continuation b3 then b0 # b1 # b2 # b3 # utf8_replace r3
                                 else replacement_character @ utf8_replace r2)))
      else replacement_character @ utf8_replace bs)"

text \<open>
  The body of \<open>unquote\<close>: each maximal run of ASCII characters is unquoted to bytes and
  decoded; the characters between the runs are kept as they are.
\<close>

function unquote_parts :: "string \<Rightarrow> string" where
  "unquote_parts [] = []"
| "unquote_parts (c # cs) =
     (if is_ascii c
      then utf8_replace (unquote_to_bytes (takeWhile is_ascii (c # cs)))
             @ unquote_parts (dropWhile is_ascii (c # cs))
      else c # unquote_parts cs)"
  by pat_completeness auto
termination
proof (relation "measure length")
  show "wf (measure length)" by simp
next
  fix c :: char and cs :: string
  assume "is_ascii c"
  then have "dropWhile is_ascii (c # cs) = dropWhile is_ascii cs" by simp
  moreover have "length (dropWhile is_ascii cs) \<le> length cs" by (rule length_dropWhile_le)
  ultimately show "(dropWhile is_ascii (c # cs), c # cs) \<in> measure length" by simp
next
  fix c :: char and cs :: string
  show "(cs, c # cs) \<in> measure length" by simp
qed

text \<open>\<open>urllib.parse.unquote(string)\<close> with its defaults \<open>utf-8\<close> and \<open>replace\<close>.\<close>

definition unquote :: "string \<Rightarrow> string" where
  "unquote s = (if CHR ''%'' \<notin> set s then s else unquote_parts s)"

section \<open>The source catalog\<close>

text \<open>
  The metadata dictionary \<open>{'title': _, 'artist': _, 'album': _}\<close> that both source
  adapters build for a track, and the catalog \<open>get_all_tracks()\<close> returns: a dict from
  decoded path to metadata, in insertion order.
\<close>

record apple_metadata =
  apple_title :: string
  apple_artist :: string
  apple_album :: string

type_synonym apple_catalog = "(string \<times> apple_metadata) list"

section \<open>The plist export adapter (apple_music_xml_client.py)\<close>

text \<open>
  \<open>AppleMusicXMLClient._decode_file_url\<close>: the body of the \<open>try\<close>, then the function
  with its \<open>except\<close>. Calling \<open>startswith\<close> on \<open>None\<close> raises.
\<close>

definition decode_file_url_try :: "bool \<Rightarrow> pyval \<Rightarrow> exn + string option" where
  "decode_file_url_try nt file_url =
     (case file_url of
        PyNone \<Rightarrow> Inl AttributeError
      | PyStr url \<Rightarrow>
          if prefix ''file://'' url
          then (let path = drop 7 url;
                    path = unquote path;
                    path =
                      (if nt \<and> prefix ''/'' path
                       then (if prefix ''/Volumes/'' path
                             then (let parts = py_split CHR ''/'' 3 path
                                   in if length parts \<ge> 4
                                      then (let drive_name = parts ! 2; rest_of_path = parts ! 3
                                            in drive_name @ '':/'' @ rest_of_path)
                                      else path)
                             else drop 1 path)
                       else path)
                in Inr (Some path))
          else Inr None)"

definition decode_file_url :: "bool \<Rightarrow> pyval \<Rightarrow> string option" where
  "decode_file_url nt file_url =
     (case decode_file_url_try nt file_url of Inr result \<Rightarrow> result | Inl e \<Rightarrow> None)"

text \<open>
  An entry of the plist's \<open>Tracks\<close> dictionary, with the defaults of \<open>track_data.get\<close>
  applied; \<open>Location\<close> is \<open>None\<close> when the key is absent.
\<close>

record xml_track =
  Location :: "pyval option"
  Name :: string
  Artist :: string
  Album :: string

text \<open>
  An entry of the plist's \<open>Playlists\<close> list: \<open>Master\<close> (default \<open>False\<close>),
  \<open>Distinguished Kind\<close> (if present), \<open>Name\<close> (default \<open>''\<close>) and, for each playlist item,
  \<open>str(item.get('Track ID', ''))\<close>.
\<close>

record xml_playlist =
  Master :: bool
  Distinguished_Kind :: "nat option"
  Playlist_Name :: string
  Playlist_Items :: "string list"

text \<open>The three maps of the client.\<close>

type_synonym playlist_store = "(string \<times> string list) list"

record xml_client =
  track_map :: apple_catalog
  id_map :: "(string \<times> string) list"
  playlists :: playlist_store

text \<open>One iteration of the loop of \<open>_process_tracks\<close>, and the loop.\<close>

definition process_track_entry :: "bool \<Rightarrow> xml_client \<Rightarrow> string \<times> xml_track \<Rightarrow> xml_client" where
  "process_track_entry nt client entry =
     (let (track_id, track_data) = entry
      in case Location track_data of
           None \<Rightarrow> client
         | Some location \<Rightarrow>
             (let file_path = decode_file_url nt location
              in if \<not> truthy file_path then client
                 else (let metadata = \<lparr>apple_title = Name track_data,
                                        apple_artist = Artist track_data,
                                        apple_album = Album track_data\<rparr>
                       in client\<lparr>track_map := dict_set (track_map client) (the file_path) metadata,
                                 id_map := dict_set (id_map client) track_id (the file_path)\<rparr>)))"

definition process_tracks :: "bool \<Rightarrow> xml_client \<Rightarrow> (string \<times> xml_track) list \<Rightarrow> xml_client" where
  "process_tracks nt client tracks_dict = foldl (process_track_entry nt) client tracks_dict"

text \<open>One iteration of the loop of \<open>_process_playlists\<close>, and the loop.\<close>

definition process_playlist :: "xml_client \<Rightarrow> xml_playlist \<Rightarrow> xml_client" where
  "process_playlist client playlist =
     (if Master playlist \<or> Distinguished_Kind playlist \<noteq> None then client
      else (let playlist_name = Playlist_Name playlist
            in if playlist_name = [] then client
               else (let tracks = List.map_filter (map_of (id_map client)) (Playlist_Items playlist)
                     in if tracks \<noteq> []
                        then client\<lparr>playlists := dict_set (playlists client) playlist_name tracks\<rparr>
                        else client)))"

definition process_playlists :: "xml_client \<Rightarrow> xml_playlist list \<Rightarrow> xml_client" where
  "process_playlists client playlists_list = foldl process_playlist client playlists_list"

text \<open>\<open>_load_library\<close> on a plist that was read: tracks first, then playlists.\<close>

definition load_library ::
  "bool \<Rightarrow> (string \<times> xml_track) list \<Rightarrow> xml_playlist list \<Rightarrow> xml_client" where
  "load_library nt tracks_dict playlists_list =
     process_playlists
       (process_tracks nt \<lparr>track_map = [], id_map = [], playlists = []\<rparr> tracks_dict)
       playlists_list"

text \<open>
  \<open>AppleMusicXMLClient.get_playlist_tracks\<close> on the stored playlists: the exact name,
  then the first name equal up to case, then the first name that contains the query up
  to case, else the empty list.
\<close>

definition get_playlist_tracks :: "(string \<Rightarrow> string) \<Rightarrow> playlist_store \<Rightarrow> string \<Rightarrow> string list" where
  "get_playlist_tracks lower stored playlist_name =
     (case map_of stored playlist_name of
        Some tracks \<Rightarrow> tracks
      | None \<Rightarrow>
          (let playlist_name_lower = lower playlist_name
           in case find (\<lambda>(name, tracks). lower name = playlist_name_lower) stored of
                Some (name, tracks) \<Rightarrow> tracks
              | None \<Rightarrow>
                  (case find (\<lambda>(name, tracks). sublist playlist_name_lower (lower name)) stored of
                     Some (name, tracks) \<Rightarrow> tracks
                   | None \<Rightarrow> [])))"

section \<open>The database adapter (\<open>class AppleMusicClient\<close>, plex_music_cleaner.py)\<close>

text \<open>
  \<open>AppleMusicClient._decode_apple_file_path\<close>: the guard \<open>if not encoded_path\<close>, the body
  of the \<open>try\<close>, and the \<open>except\<close>.
\<close>

definition decode_apple_file_path_try :: "bool \<Rightarrow> pyval \<Rightarrow> exn + string option" where
  "decode_apple_file_path_try nt encoded_path =
     (case encoded_path of
        PyNone \<Rightarrow> Inl AttributeError
      | PyStr encoded \<Rightarrow>
          if prefix ''file://'' encoded
          then (let path = drop 7 encoded;
                    path = unquote path;
                    path =
                      (if nt \<and> prefix ''/'' path
                       then (if prefix ''/Volumes/'' path
                             then (let parts = py_split CHR ''/'' 3 path
                                   in if length parts \<ge> 4
                                      then (let drive_name = parts ! 2; rest_of_path = parts ! 3
                                            in drive_name @ '':/'' @ rest_of_path)
                                      else path)
                             else drop 1 path)
                       else path)
                in Inr (Some path))
          else Inr None)"

definition decode_apple_file_path :: "bool \<Rightarrow> pyval \<Rightarrow> string option" where
  "decode_apple_file_path nt encoded_path =
     (if py_not encoded_path then None
      else (case decode_apple_file_path_try nt encoded_path of
              Inr result \<Rightarrow> result
            | Inl e \<Rightarrow> None))"

section \<open>The change log (\<open>class CleanLogger\<close>, plex_music_cleaner.py)\<close>

text \<open>
  One row of the SQLite table \<open>cleaned\<close>. The table is the list of its rows in insertion
  order; the autoincremented \<open>id\<close> of a row is its position. The table is held in memory,
  so the \<open>except\<close> branches of the logger, which answer an I/O failure of SQLite, have no
  counterpart here.
\<close>

record change_entry =
  plex_rating_key :: string
  field :: string
  old_value :: string
  new_value :: string
  timestamp :: string

type_synonym cleaned_table = "change_entry list"

text \<open>
  \<open>CleanLogger.record_change\<close>: one \<open>INSERT INTO cleaned\<close>. The clock \<open>now\<close> stands for
  \<open>datetime.now().isoformat()\<close>; it is read once per insertion and is indexed by the number
  of rows already stored.
\<close>

definition record_change ::
  "(nat \<Rightarrow> string) \<Rightarrow> cleaned_table \<Rightarrow> string \<Rightarrow> string \<Rightarrow> string \<Rightarrow> string \<Rightarrow> cleaned_table" where
  "record_change now cleaned rating_key fld old new =
     cleaned @ [\<lparr>plex_rating_key = rating_key, field = fld, old_value = old,
                 new_value = new, timestamp = now (length cleaned)\<rparr>]"

text \<open>
  \<open>CleanLogger.is_track_cleaned\<close> (the spec's \<open>is_field_cleaned\<close>):
  \<open>SELECT COUNT(*) FROM cleaned WHERE plex_rating_key = ? AND field = ?\<close>, then
  \<open>count > 0\<close>.
\<close>

definition is_track_cleaned :: "cleaned_table \<Rightarrow> string \<Rightarrow> string \<Rightarrow> bool" where
  "is_track_cleaned cleaned rating_key fld =
     (0 < length (filter (\<lambda>e. plex_rating_key e = rating_key \<and> field e = fld) cleaned))"

text \<open>
  \<open>CleanLogger.get_cleaned_tracks\<close> (the spec's \<open>cleaned_identities\<close>):
  \<open>SELECT DISTINCT plex_rating_key FROM cleaned\<close>, collected into a set.
\<close>

definition get_cleaned_tracks :: "cleaned_table \<Rightarrow> string set" where
  "get_cleaned_tracks cleaned = set (map plex_rating_key cleaned)"

text \<open>The columns of a row that the caller supplies (everything but the timestamp).\<close>

definition entry_columns :: "change_entry \<Rightarrow> string \<times> string \<times> string \<times> string" where
  "entry_columns e = (plex_rating_key e, field e, old_value e, new_value e)"

section \<open>The managed records\<close>

text \<open>
  A track object of the managed library, with the attributes the cleaner reads.
  \<open>originalTitle\<close> is \<open>None\<close> when the track has no per-track artist. \<open>media\<close> lists, for
  each media item, the \<open>file\<close> attribute of each of its parts (\<open>None\<close> when a part has no
  file); it is \<open>None\<close> as a whole when walking \<open>track.media\<close> raises.
\<close>

record plex_track =
  ratingKey :: int
  title :: string
  originalTitle :: "string option"
  grandparentTitle :: string
  parentTitle :: string
  media :: "string option list list option"

section \<open>The managed library client (\<open>class PlexClient\<close>, plex_music_cleaner.py)\<close>

text \<open>
  \<open>PlexClient.find_track_by_filename\<close>. The three nested loops look for the first part,
  in the order tracks, media, parts, whose file has the wanted basename;
  \<open>os.path.basename(None)\<close> raises. \<open>search\<close> is \<open>music_section.search(title=_,
  libtype="track")\<close>, and \<open>splitext_root\<close> is \<open>os.path.splitext(_)[0]\<close>.
\<close>

fun scan_parts :: "(string \<Rightarrow> string) \<Rightarrow> string \<Rightarrow> string option list \<Rightarrow> exn + bool" where
  "scan_parts basename base_filename [] = Inr False"
| "scan_parts basename base_filename (part_file # rest) =
     (case part_file of
        None \<Rightarrow> Inl TypeError
      | Some file \<Rightarrow>
          if basename file = base_filename then Inr True
          else scan_parts basename base_filename rest)"

fun scan_media :: "(string \<Rightarrow> string) \<Rightarrow> string \<Rightarrow> string option list list \<Rightarrow> exn + bool" where
  "scan_media basename base_filename [] = Inr False"
| "scan_media basename base_filename (parts # rest) =
     (case scan_parts basename base_filename parts of
        Inl e \<Rightarrow> Inl e
      | Inr found \<Rightarrow> if found then Inr True else scan_media basename base_filename rest)"

fun scan_results ::
  "(string \<Rightarrow> string) \<Rightarrow> string \<Rightarrow> plex_track list \<Rightarrow> exn + plex_track option" where
  "scan_results basename base_filename [] = Inr None"
| "scan_results basename base_filename (track # rest) =
     (case media track of
        None \<Rightarrow> Inl AttributeError
      | Some medias \<Rightarrow>
          (case scan_media basename base_filename medias of
             Inl e \<Rightarrow> Inl e
           | Inr found \<Rightarrow>
               if found then Inr (Some track) else scan_results basename base_filename rest))"

definition find_track_by_filename_try ::
  "(string \<Rightarrow> string) \<Rightarrow> (string \<Rightarrow> string) \<Rightarrow> (string \<Rightarrow> exn + plex_track list) \<Rightarrow> string \<Rightarrow>
   exn + plex_track option" where
  "find_track_by_filename_try basename splitext_root search filename =
     (let base_filename = basename filename;
          name_without_ext = splitext_root base_filename
      in case search name_without_ext of
           Inl e \<Rightarrow> Inl e
         | Inr results \<Rightarrow>
             (case scan_results basename base_filename results of
                Inl e \<Rightarrow> Inl e
              | Inr (Some track) \<Rightarrow> Inr (Some track)
              | Inr None \<Rightarrow>
                  (case results of
                     first # _ \<Rightarrow> Inr (Some first)
                   | [] \<Rightarrow> Inr None)))"

definition find_track_by_filename ::
  "(string \<Rightarrow> string) \<Rightarrow> (string \<Rightarrow> string) \<Rightarrow> (string \<Rightarrow> exn + plex_track list) \<Rightarrow> string \<Rightarrow>
   plex_track option" where
  "find_track_by_filename basename splitext_root search filename =
     (case find_track_by_filename_try basename splitext_root search filename of
        Inr result \<Rightarrow> result
      | Inl e \<Rightarrow> None)"

text \<open>The fields of one \<open>track.edit\<close> call, in the order they are put into the dict.\<close>

type_synonym update_fields = "(string \<times> string) list"

text \<open>
  \<open>track.edit(**update_fields); track.reload()\<close>. Whether the server takes the edit is
  the environment's choice \<open>accepts\<close>; a rejected edit raises.
\<close>

definition track_edit ::
  "(plex_track \<Rightarrow> update_fields \<Rightarrow> bool) \<Rightarrow> plex_track \<Rightarrow> update_fields \<Rightarrow> exn + unit" where
  "track_edit accepts track flds = (if accepts track flds then Inr () else Inl ServerError)"

text \<open>
  The trace of edit calls sent to the server: rating key, fields, and whether the call
  returned normally.
\<close>

type_synonym edit_trace = "(int \<times> update_fields \<times> bool) list"

text \<open>\<open>PlexClient.update_track_metadata\<close>.\<close>

definition update_track_metadata ::
  "(plex_track \<Rightarrow> update_fields \<Rightarrow> bool) \<Rightarrow> plex_track \<Rightarrow>
   string option \<Rightarrow> string option \<Rightarrow> string option \<Rightarrow> edit_trace \<Rightarrow> bool \<times> edit_trace" where
  "update_track_metadata accepts track new_title new_artist new_album trace =
     (let update_fields =
            (case new_title of
               Some t \<Rightarrow> if title track \<noteq> t then [(''title'', t)] else []
             | None \<Rightarrow> [])
          @ (case new_artist of
               Some a \<Rightarrow> if originalTitle track \<noteq> Some a then [(''originalTitle'', a)] else []
             | None \<Rightarrow> [])
          @ (case new_album of
               Some b \<Rightarrow> if parentTitle track \<noteq> b then [(''parentTitle'', b)] else []
             | None \<Rightarrow> [])
      in if update_fields = [] then (False, trace)
         else (case track_edit accepts track update_fields of
                 Inr _ \<Rightarrow> (True, trace @ [(ratingKey track, update_fields, True)])
               | Inl _ \<Rightarrow> (False, trace @ [(ratingKey track, update_fields, False)])))"

text \<open>The playlists of the server: title and items, in the order the server lists them.\<close>

type_synonym plex_playlists = "(string \<times> plex_track list) list"

text \<open>The loop with \<open>break\<close> of \<open>create_playlist\<close>: the first match is deleted.\<close>

fun delete_first :: "('a \<Rightarrow> bool) \<Rightarrow> 'a list \<Rightarrow> 'a list" where
  "delete_first P [] = []"
| "delete_first P (x # xs) = (if P x then xs else x # delete_first P xs)"

text \<open>
  \<open>server.createPlaylist(name, tracks)\<close>. Whether the server takes the call is the
  environment's choice \<open>creates\<close>; a rejected call raises.
\<close>

definition server_create_playlist ::
  "(string \<Rightarrow> plex_track list \<Rightarrow> bool) \<Rightarrow> string \<Rightarrow> plex_track list \<Rightarrow> plex_playlists \<Rightarrow>
   exn + plex_playlists" where
  "server_create_playlist creates name tracks server_playlists =
     (if creates name tracks then Inr (server_playlists @ [(name, tracks)]) else Inl ServerError)"

text \<open>\<open>PlexClient.create_playlist\<close>: the result and the playlists of the server afterwards.\<close>

definition create_playlist ::
  "(string \<Rightarrow> string) \<Rightarrow> (string \<Rightarrow> plex_track list \<Rightarrow> bool) \<Rightarrow> string \<Rightarrow> plex_track list \<Rightarrow>
   plex_playlists \<Rightarrow> bool \<times> plex_playlists" where
  "create_playlist lower creates name tracks server_playlists =
     (let remaining = delete_first (\<lambda>(playlist_title, items). lower playlist_title = lower name)
                        server_playlists
      in case server_create_playlist creates name tracks remaining of
           Inr created \<Rightarrow> (True, created)
         | Inl e \<Rightarrow> (False, remaining))"

section \<open>The clean workflows (\<open>clean_all_tracks\<close>, \<open>clean_artist_tracks\<close>)\<close>

record clean_stats =
  total_tracks :: nat
  matched_tracks :: nat
  updated_tracks :: nat
  title_updates :: nat
  artist_updates :: nat
  album_updates :: nat
  skipped_tracks :: nat

text \<open>
  What a run changes: its statistics, the change log, and the edits it sent to the
  managed library.
\<close>

record clean_state =
  stats :: clean_stats
  clean_log :: cleaned_table
  edits :: edit_trace

text \<open>
  The loop that picks \<open>file_path\<close>: for each media item the first part's \<open>file\<close> is
  stored, and the walk stops as soon as the stored value is truthy. The second argument
  is the value of \<open>file_path\<close> so far.
\<close>

fun get_file_path :: "string option list list \<Rightarrow> string option \<Rightarrow> string option" where
  "get_file_path [] file_path = file_path"
| "get_file_path (parts # rest) file_path =
     (let file_path' = (case parts of [] \<Rightarrow> file_path | part_file # _ \<Rightarrow> part_file)
      in if truthy file_path' then file_path' else get_file_path rest file_path')"

text \<open>
  The lookup of the source record: the direct path is tried first, then the first
  catalog entry, in iteration order, whose basename equals the basename of \<open>file_path\<close>.
  \<open>basename\<close> is \<open>os.path.basename\<close> of the platform.
\<close>

definition find_apple_track ::
  "(string \<Rightarrow> string) \<Rightarrow> apple_catalog \<Rightarrow> string \<Rightarrow> apple_metadata option" where
  "find_apple_track basename apple_tracks file_path =
     (case map_of apple_tracks file_path of
        Some metadata \<Rightarrow> Some metadata
      | None \<Rightarrow>
          (let filename = basename file_path
           in map_option snd
                (find (\<lambda>(apple_path, metadata). basename apple_path = filename) apple_tracks)))"

text \<open>\<open>getattr(track, 'originalTitle', None) or track.grandparentTitle\<close>.\<close>

definition track_artist :: "plex_track \<Rightarrow> string" where
  "track_artist track =
     (if truthy (originalTitle track) then the (originalTitle track) else grandparentTitle track)"

text \<open>
  The three field checks. Each takes and returns the run state together with the local
  flag \<open>updated\<close>. \<open>record_change\<close> is called with \<open>track.ratingKey\<close>, an \<open>int\<close>, which the
  \<open>TEXT\<close> column stores as its decimal text.
\<close>

definition check_title ::
  "(nat \<Rightarrow> string) \<Rightarrow> plex_track \<Rightarrow> apple_metadata \<Rightarrow> clean_state \<times> bool \<Rightarrow> clean_state \<times> bool" where
  "check_title now track apple_track su =
     (let (st, updated) = su
      in if title track \<noteq> apple_title apple_track
         then (st\<lparr>clean_log := record_change now (clean_log st) (sqlite_text (KeyInt (ratingKey track))) ''title''
                                  (title track) (apple_title apple_track),
                  stats := (stats st)\<lparr>title_updates := title_updates (stats st) + 1\<rparr>\<rparr>, True)
         else (st, updated))"

definition check_artist ::
  "(nat \<Rightarrow> string) \<Rightarrow> plex_track \<Rightarrow> apple_metadata \<Rightarrow> clean_state \<times> bool \<Rightarrow> clean_state \<times> bool" where
  "check_artist now track apple_track su =
     (let (st, updated) = su
      in if track_artist track \<noteq> apple_artist apple_track
         then (st\<lparr>clean_log := record_change now (clean_log st) (sqlite_text (KeyInt (ratingKey track))) ''artist''
                                  (track_artist track) (apple_artist apple_track),
                  stats := (stats st)\<lparr>artist_updates := artist_updates (stats st) + 1\<rparr>\<rparr>, True)
         else (st, updated))"

definition check_album ::
  "(nat \<Rightarrow> string) \<Rightarrow> plex_track \<Rightarrow> apple_metadata \<Rightarrow> clean_state \<times> bool \<Rightarrow> clean_state \<times> bool" where
  "check_album now track apple_track su =
     (let (st, updated) = su
      in if parentTitle track \<noteq> apple_album apple_track
         then (st\<lparr>clean_log := record_change now (clean_log st) (sqlite_text (KeyInt (ratingKey track))) ''album''
                                  (parentTitle track) (apple_album apple_track),
                  stats := (stats st)\<lparr>album_updates := album_updates (stats st) + 1\<rparr>\<rparr>, True)
         else (st, updated))"

text \<open>
  The differ: the three checks in the order title, artist, album, starting with
  \<open>updated = False\<close>.
\<close>

definition compare_metadata ::
  "(nat \<Rightarrow> string) \<Rightarrow> plex_track \<Rightarrow> apple_metadata \<Rightarrow> clean_state \<Rightarrow> clean_state \<times> bool" where
  "compare_metadata now track apple_track st =
     check_album now track apple_track
       (check_artist now track apple_track
          (check_title now track apple_track (st, False)))"

text \<open>
  \<open>if updated:\<close> the write is sent with all three source values and \<open>updated_tracks\<close> is
  incremented; the result of \<open>update_track_metadata\<close> is not read.
\<close>

definition apply_update ::
  "(plex_track \<Rightarrow> update_fields \<Rightarrow> bool) \<Rightarrow> plex_track \<Rightarrow> apple_metadata \<Rightarrow>
   clean_state \<times> bool \<Rightarrow> clean_state" where
  "apply_update accepts track apple_track su =
     (let (st, updated) = su
      in if updated
         then (let (success, trace) =
                     update_track_metadata accepts track (Some (apple_title apple_track))
                       (Some (apple_artist apple_track)) (Some (apple_album apple_track)) (edits st)
               in st\<lparr>edits := trace,
                     stats := (stats st)\<lparr>updated_tracks := updated_tracks (stats st) + 1\<rparr>\<rparr>)
         else st)"

text \<open>
  One iteration of \<open>for track in plex_tracks\<close>. \<open>cleaned_tracks\<close> is the set read from
  the change log before the loop starts; the test \<open>track.ratingKey in cleaned_tracks\<close>
  looks for the \<open>int\<close> key of the track in that set.
\<close>

definition process_track ::
  "(string \<Rightarrow> string) \<Rightarrow> (nat \<Rightarrow> string) \<Rightarrow> (plex_track \<Rightarrow> update_fields \<Rightarrow> bool) \<Rightarrow>
   apple_catalog \<Rightarrow> pykey set \<Rightarrow> clean_state \<Rightarrow> plex_track \<Rightarrow> clean_state" where
  "process_track basename now accepts apple_tracks cleaned_tracks st track =
     (if KeyInt (ratingKey track) \<in> cleaned_tracks
      then st\<lparr>stats := (stats st)\<lparr>skipped_tracks := skipped_tracks (stats st) + 1\<rparr>\<rparr>
      else (case media track of
              None \<Rightarrow> st
            | Some medias \<Rightarrow>
                (let file_path = get_file_path medias None
                 in if \<not> truthy file_path then st
                    else (case find_apple_track basename apple_tracks (the file_path) of
                            None \<Rightarrow> st
                          | Some apple_track \<Rightarrow>
                              apply_update accepts track apple_track
                                (compare_metadata now track apple_track
                                   (st\<lparr>stats := (stats st)\<lparr>matched_tracks :=
                                                   matched_tracks (stats st) + 1\<rparr>\<rparr>))))))"

text \<open>
  The body shared, line for line, by \<open>clean_all_tracks\<close> and \<open>clean_artist_tracks\<close>: the
  statistics start at zero with \<open>total_tracks = len(plex_tracks)\<close>, the cleaned set is read
  once, and the tracks are processed in order. The cleaned set holds the \<open>str\<close> values that
  \<open>get_cleaned_tracks\<close> returns.
\<close>

definition clean_tracks ::
  "(string \<Rightarrow> string) \<Rightarrow> (nat \<Rightarrow> string) \<Rightarrow> (plex_track \<Rightarrow> update_fields \<Rightarrow> bool) \<Rightarrow>
   plex_track list \<Rightarrow> apple_catalog \<Rightarrow> cleaned_table \<Rightarrow> clean_state" where
  "clean_tracks basename now accepts plex_tracks apple_tracks log0 =
     (let stats0 = \<lparr>total_tracks = length plex_tracks, matched_tracks = 0, updated_tracks = 0,
                    title_updates = 0, artist_updates = 0, album_updates = 0,
                    skipped_tracks = 0\<rparr>;
          cleaned_tracks = KeyStr ` get_cleaned_tracks log0
      in foldl (process_track basename now accepts apple_tracks cleaned_tracks)
           \<lparr>stats = stats0, clean_log = log0, edits = []\<rparr> plex_tracks)"

text \<open>
  \<open>clean_all_tracks\<close> runs the body on \<open>plex_client.get_all_tracks()\<close> and
  \<open>apple_music_client.get_all_tracks()\<close>.
\<close>

definition clean_all_tracks ::
  "(string \<Rightarrow> string) \<Rightarrow> (nat \<Rightarrow> string) \<Rightarrow> (plex_track \<Rightarrow> update_fields \<Rightarrow> bool) \<Rightarrow>
   plex_track list \<Rightarrow> apple_catalog \<Rightarrow> cleaned_table \<Rightarrow> clean_state" where
  "clean_all_tracks basename now accepts all_plex_tracks all_apple_tracks log0 =
     clean_tracks basename now accepts all_plex_tracks all_apple_tracks log0"

text \<open>
  \<open>clean_artist_tracks\<close> runs the same body on the two clients'
  \<open>get_tracks_by_artist(artist_name)\<close>.
\<close>

definition clean_artist_tracks ::
  "(string \<Rightarrow> string) \<Rightarrow> (nat \<Rightarrow> string) \<Rightarrow> (plex_track \<Rightarrow> update_fields \<Rightarrow> bool) \<Rightarrow>
   (string \<Rightarrow> plex_track list) \<Rightarrow> (string \<Rightarrow> apple_catalog) \<Rightarrow> cleaned_table \<Rightarrow> string \<Rightarrow>
   clean_state" where
  "clean_artist_tracks basename now accepts plex_tracks_by_artist apple_tracks_by_artist log0
       artist_name =
     clean_tracks basename now accepts (plex_tracks_by_artist artist_name)
       (apple_tracks_by_artist artist_name) log0"

text \<open>The rows a step added to the change log.\<close>

definition new_entries :: "clean_state \<Rightarrow> clean_state \<Rightarrow> change_entry list" where
  "new_entries st st' = drop (length (clean_log st)) (clean_log st')"

section \<open>The playlist sync (\<open>sync_playlist\<close>)\<close>

record sync_stats =
  sync_total_tracks :: nat
  sync_matched_tracks :: nat
  sync_missing_tracks :: nat

text \<open>
  The warnings about missing tracks: the count, one line per listed basename, and the
  line \<open>... and n more\<close>.
\<close>

datatype warning = CouldNotFind nat | MissingItem string | AndMore nat

text \<open>The variables of the matching loop.\<close>

record sync_state =
  sync_stats :: sync_stats
  plex_tracks :: "plex_track list"
  missing_tracks :: "string list"

text \<open>
  One iteration of \<open>for file_path in apple_track_paths\<close>; \<open>find_track\<close> is
  \<open>plex_client.find_track_by_filename\<close>.
\<close>

definition match_track :: "(string \<Rightarrow> plex_track option) \<Rightarrow> sync_state \<Rightarrow> string \<Rightarrow> sync_state" where
  "match_track find_track st file_path =
     (case find_track file_path of
        Some plex_track \<Rightarrow>
          st\<lparr>plex_tracks := plex_tracks st @ [plex_track],
             sync_stats := (sync_stats st)\<lparr>sync_matched_tracks :=
                             sync_matched_tracks (sync_stats st) + 1\<rparr>\<rparr>
      | None \<Rightarrow>
          st\<lparr>missing_tracks := missing_tracks st @ [file_path],
             sync_stats := (sync_stats st)\<lparr>sync_missing_tracks :=
                             sync_missing_tracks (sync_stats st) + 1\<rparr>\<rparr>)"

text \<open>The block \<open>if missing_tracks:\<close> at the end of \<open>sync_playlist\<close>.\<close>

definition missing_report :: "(string \<Rightarrow> string) \<Rightarrow> string list \<Rightarrow> warning list" where
  "missing_report basename missing =
     (if missing \<noteq> []
      then CouldNotFind (length missing)
           # map (\<lambda>path. MissingItem (basename path)) (take 10 missing)
           @ (if length missing > 10 then [AndMore (length missing - 10)] else [])
      else [])"

text \<open>
  What \<open>sync_playlist\<close> yields: the statistics it returns, the playlists of the server
  afterwards, and the warnings about missing tracks.
\<close>

record sync_result =
  result_stats :: sync_stats
  result_playlists :: plex_playlists
  result_warnings :: "warning list"

text \<open>
  \<open>sync_playlist\<close>. \<open>playlist_tracks\<close> is \<open>apple_music_client.get_playlist_tracks\<close>; the
  playlist is created only when at least one track was found.
\<close>

definition sync_playlist ::
  "(string \<Rightarrow> string) \<Rightarrow> (string \<Rightarrow> string) \<Rightarrow> (string \<Rightarrow> plex_track option) \<Rightarrow>
   (string \<Rightarrow> plex_track list \<Rightarrow> bool) \<Rightarrow> (string \<Rightarrow> string list) \<Rightarrow> plex_playlists \<Rightarrow> string \<Rightarrow>
   sync_result" where
  "sync_playlist basename lower find_track creates playlist_tracks server_playlists playlist_name =
     (let apple_track_paths = playlist_tracks playlist_name;
          st0 = \<lparr>sync_stats = \<lparr>sync_total_tracks = length apple_track_paths,
                                sync_matched_tracks = 0, sync_missing_tracks = 0\<rparr>,
                 plex_tracks = [], missing_tracks = []\<rparr>;
          st = foldl (match_track find_track) st0 apple_track_paths;
          server_playlists' =
            (if plex_tracks st \<noteq> []
             then snd (create_playlist lower creates playlist_name (plex_tracks st) server_playlists)
             else server_playlists)
      in \<lparr>result_stats = sync_stats st, result_playlists = server_playlists',
          result_warnings = missing_report basename (missing_tracks st)\<rparr>)"

section \<open>Definitions that follow the spec's words\<close>

text \<open>
  The spec's rule for the differ: for each of title, artist and album, in that order, one
  Change Entry (identity, field, old value, new value) iff the managed value differs from
  the source value.
\<close>

definition spec_change_entries :: "plex_track \<Rightarrow> apple_metadata \<Rightarrow> (string \<times> string \<times> string \<times> string) list" where
  "spec_change_entries t a =
     (if title t \<noteq> apple_title a then [(sqlite_text (KeyInt (ratingKey t)), ''title'', title t, apple_title a)] else [])
   @ (if track_artist t \<noteq> apple_artist a then [(sqlite_text (KeyInt (ratingKey t)), ''artist'', track_artist t, apple_artist a)] else [])
   @ (if parentTitle t \<noteq> apple_album a then [(sqlite_text (KeyInt (ratingKey t)), ''album'', parentTitle t, apple_album a)] else [])"

text \<open>\<open>s = a @ [sep] @ b\<close> with no \<open>sep\<close> in \<open>a\<close>, if \<open>s\<close> contains \<open>sep\<close>.\<close>

fun split_first :: "char \<Rightarrow> string \<Rightarrow> (string \<times> string) option" where
  "split_first sep [] = None"
| "split_first sep (c # cs) =
     (if c = sep then Some ([], cs)
      else map_option (\<lambda>(a, b). (c # a, b)) (split_first sep cs))"

text \<open>A path of the form \<open>/Volumes/<name>/<rest>\<close>, split into name and rest.\<close>

definition volume_form :: "string \<Rightarrow> (string \<times> string) option" where
  "volume_form p = (if prefix ''/Volumes/'' p then split_first CHR ''/'' (drop 9 p) else None)"

text \<open>
  The Path Normalizer as the spec states it: no \<open>file://\<close> scheme, undecodable; else the
  scheme is stripped and the rest percent-decoded; under the Windows convention a path of
  the form \<open>/Volumes/<name>/<rest>\<close> becomes \<open><name>:/<rest>\<close> and any other path that begins
  with \<open>/\<close> loses that one separator.
\<close>

definition spec_decode :: "bool \<Rightarrow> pyval \<Rightarrow> string option" where
  "spec_decode nt location =
     (case location of
        PyNone \<Rightarrow> None
      | PyStr s \<Rightarrow>
          if \<not> prefix ''file://'' s then None
          else (let p = unquote (drop 7 s)
                in if nt
                   then (case volume_form p of
                           Some (name, rest) \<Rightarrow> Some (name @ '':/'' @ rest)
                         | None \<Rightarrow> if prefix ''/'' p then Some (drop 1 p) else Some p)
                   else Some p))"

text \<open>
  The same, except that under the Windows convention a path that begins with
  \<open>/Volumes/\<close> and has no further separator is left as it is.
\<close>

definition decode_reference :: "bool \<Rightarrow> pyval \<Rightarrow> string option" where
  "decode_reference nt location =
     (case location of
        PyNone \<Rightarrow> None
      | PyStr s \<Rightarrow>
          if \<not> prefix ''file://'' s then None
          else (let p = unquote (drop 7 s)
                in if nt
                   then (case volume_form p of
                           Some (name, rest) \<Rightarrow> Some (name @ '':/'' @ rest)
                         | None \<Rightarrow> if prefix ''/Volumes/'' p then Some p
                                   else if prefix ''/'' p then Some (drop 1 p) else Some p)
                   else Some p))"

text \<open>Well-formed UTF-8 (the Unicode standard's table of well-formed byte sequences).\<close>

fun utf8_valid :: "string \<Rightarrow> bool" where
  "utf8_valid [] = True"
| "utf8_valid (b0 # bs) =
     (if is_ascii b0 then utf8_valid bs
      else if in_range 0xC2 0xDF b0 then
        (case bs of b1 # r \<Rightarrow> is_continuation b1 \<and> utf8_valid r | _ \<Rightarrow> False)
      else if in_range 0xE0 0xEF b0 then
        (case bs of
           b1 # b2 # r \<Rightarrow> second_of_three b0 b1 \<and> is_continuation b2 \<and> utf8_valid r
         | _ \<Rightarrow> False)
      else if in_range 0xF0 0xF4 b0 then
        (case bs of
           b1 # b2 # b3 # r \<Rightarrow>
             second_of_four b0 b1 \<and> is_continuation b2 \<and> is_continuation b3 \<and> utf8_valid r
         | _ \<Rightarrow> False)
      else False)"

text \<open>
  Modelled from the spec: the encoder of the round-trip property is not in the code. The
  RFC 3986 percent-encoding of a path: an unreserved character (letter, digit, \<open>-\<close>, \<open>.\<close>,
  \<open>_\<close>, \<open>~\<close>) and the path separator stand for themselves; any other byte is written as
  \<open>%\<close> and two upper-case hexadecimal digits. \<open>encode\<close> puts the scheme in front.
\<close>

definition unreserved :: "char \<Rightarrow> bool" where
  "unreserved c =
     (in_range 0x41 0x5A c \<or> in_range 0x61 0x7A c \<or> in_range 0x30 0x39 c
      \<or> c \<in> set ''-._~'')"

definition hex_digit :: "nat \<Rightarrow> char" where
  "hex_digit n = (if n < 10 then char_of (0x30 + n) else char_of (0x41 + (n - 10)))"

definition percent_encode_byte :: "char \<Rightarrow> string" where
  "percent_encode_byte c =
     (if unreserved c \<or> c = CHR ''/'' then [c]
      else [CHR ''%'', hex_digit (of_char c div 16), hex_digit (of_char c mod 16)])"

definition percent_encode :: "string \<Rightarrow> string" where
  "percent_encode p = concat (map percent_encode_byte p)"

definition encode :: "string \<Rightarrow> string" where
  "encode p = ''file://'' @ percent_encode p"

text \<open>The warnings that list a basename, and the ones that count the overflow.\<close>

definition is_item :: "warning \<Rightarrow> bool" where
  "is_item w = (case w of MissingItem b \<Rightarrow> True | _ \<Rightarrow> False)"

definition is_overflow :: "warning \<Rightarrow> bool" where
  "is_overflow w = (case w of AndMore n \<Rightarrow> True | _ \<Rightarrow> False)"

section \<open>Concrete inputs\<close>

text \<open>
  Scenario 1 of the spec: one source record under \<open>/music/a.mp3\<close>, one managed record
  with raw path \<open>/mnt/music/a.mp3\<close> and title \<open>Old\<close>, artist and album already equal to the
  source's.
\<close>

definition scenario_catalog :: apple_catalog where
  "scenario_catalog =
     [(''/music/a.mp3'', \<lparr>apple_title = ''X'', apple_artist = ''Y'', apple_album = ''Z''\<rparr>)]"

definition scenario_track :: plex_track where
  "scenario_track =
     \<lparr>ratingKey = 1001, title = ''Old'', originalTitle = None, grandparentTitle = ''Y'',
      parentTitle = ''Z'', media = Some [[Some ''/mnt/music/a.mp3'']]\<rparr>"

text \<open>A state with all counters zero, an empty change log and no edits.\<close>

definition empty_state :: clean_state where
  "empty_state = \<lparr>stats = \<lparr>total_tracks = 0, matched_tracks = 0, updated_tracks = 0,
       title_updates = 0, artist_updates = 0, album_updates = 0, skipped_tracks = 0\<rparr>,
     clean_log = [], edits = []\<rparr>"

text \<open>A catalog in which the second and the third path share a basename.\<close>

definition two_copies_catalog :: apple_catalog where
  "two_copies_catalog =
     [(''/music/intro.mp3'', \<lparr>apple_title = ''I'', apple_artist = ''Y'', apple_album = ''Z''\<rparr>),
      (''/music/a.mp3'', \<lparr>apple_title = ''X'', apple_artist = ''Y'', apple_album = ''Z''\<rparr>),
      (''/backup/a.mp3'', \<lparr>apple_title = ''X2'', apple_artist = ''Y2'', apple_album = ''Z2''\<rparr>)]"

text \<open>Three stored playlists.\<close>

definition example_playlists :: playlist_store where
  "example_playlists =
     [(''Road Trip 2023'', [''/music/a.mp3'']),
      (''road trip'', [''/music/b.mp3'']),
      (''Chill'', [''/music/c.mp3'', ''/music/a.mp3''])]"

text \<open>
  Scenario 2 of the spec: a managed library of two tracks, found by title, and a source
  playlist of three paths of which the second has no managed track.
\<close>

definition track_a :: plex_track where
  "track_a = \<lparr>ratingKey = 1, title = ''a'', originalTitle = None, grandparentTitle = ''Y'',
      parentTitle = ''Z'', media = Some [[Some ''/mnt/music/a.mp3'']]\<rparr>"

definition track_c :: plex_track where
  "track_c = \<lparr>ratingKey = 3, title = ''c'', originalTitle = None, grandparentTitle = ''Y'',
      parentTitle = ''Z'', media = Some [[Some ''/mnt/music/c.mp3'']]\<rparr>"

definition library_search :: "string \<Rightarrow> exn + plex_track list" where
  "library_search name = Inr (filter (\<lambda>t. title t = name) [track_a, track_c])"

definition mix_paths :: "string \<Rightarrow> string list" where
  "mix_paths name = (if name = ''Mix'' then [''/music/a.mp3'', ''/music/missing.mp3'', ''/music/c.mp3''] else [])"

text \<open>A path with a space and a two-byte character.\<close>

definition song_path :: string where
  "song_path = ''/Users/me/Music/My Song '' @ [CHR 0xC3, CHR 0xA9] @ ''.mp3''"

section \<open>Properties of the change log\<close>

text \<open>The text SQLite stores for the rating key of the scenario's track.\<close>

lemma int_text_1001: "int_text 1001 = ''1001''"
  by code_simp

lemma record_change_columns:
  "map entry_columns (record_change now cleaned k f old new) =
     map entry_columns cleaned @ [(k, f, old, new)]"
  by (simp add: record_change_def entry_columns_def)

lemma record_change_prefix:
  "take (length cleaned) (record_change now cleaned k f old new) = cleaned"
  by (simp add: record_change_def)

lemma record_change_funpow_columns:
  "map entry_columns (((\<lambda>c. record_change now c k f old new) ^^ n) cleaned) =
     map entry_columns cleaned @ replicate n (k, f, old, new)"
proof (induction n)
  case 0
  show ?case by simp
next
  case (Suc n)
  have "replicate n (k, f, old, new) @ [(k, f, old, new)] = replicate (Suc n) (k, f, old, new)"
    by (simp add: replicate_append_same)
  with Suc show ?case
    by (simp add: record_change_columns del: replicate_Suc)
qed

lemma record_change_funpow_prefix:
  "take (length cleaned) (((\<lambda>c. record_change now c k f old new) ^^ n) cleaned) = cleaned"
proof (induction n)
  case 0
  show ?case by simp
next
  case (Suc n)
  let ?c = "((\<lambda>c. record_change now c k f old new) ^^ n) cleaned"
  have "length cleaned \<le> length ?c"
    using Suc by (metis length_take min.cobounded1 min.commute)
  with Suc show ?case
    by (simp add: record_change_def)
qed

text \<open>
  Claim C3. After \<open>record_change(identity, field, old, new)\<close> the query
  \<open>is_track_cleaned(identity, field)\<close> answers true, whatever the values are; and
  \<open>record_change\<close> only ever appends: \<open>n\<close> calls with identical arguments keep every
  earlier row in place and store \<open>n\<close> further rows with those columns.
\<close>

theorem record_change_appends_and_marks_cleaned:
  "is_track_cleaned (record_change now cleaned k f old new) k f
   \<and> take (length cleaned) (((\<lambda>c. record_change now c k f old new) ^^ n) cleaned) = cleaned
   \<and> map entry_columns (((\<lambda>c. record_change now c k f old new) ^^ n) cleaned) =
       map entry_columns cleaned @ replicate n (k, f, old, new)
   \<and> length (((\<lambda>c. record_change now c k f old new) ^^ n) cleaned) = length cleaned + n"
proof -
  have a: "is_track_cleaned (record_change now cleaned k f old new) k f"
    by (simp add: is_track_cleaned_def record_change_def)
  have "length (map entry_columns (((\<lambda>c. record_change now c k f old new) ^^ n) cleaned)) =
        length (map entry_columns cleaned @ replicate n (k, f, old, new))"
    by (simp only: record_change_funpow_columns)
  then have d: "length (((\<lambda>c. record_change now c k f old new) ^^ n) cleaned) = length cleaned + n"
    by simp
  show ?thesis
    using a d record_change_funpow_prefix record_change_funpow_columns by blast
qed

section \<open>Properties of the differ\<close>

lemma check_title_log:
  "clean_log (fst (check_title now t a (st, u))) =
     clean_log st @ (if title t \<noteq> apple_title a
        then [\<lparr>plex_rating_key = sqlite_text (KeyInt (ratingKey t)), field = ''title'', old_value = title t,
               new_value = apple_title a, timestamp = now (length (clean_log st))\<rparr>] else [])"
  by (simp add: check_title_def record_change_def)

lemma check_artist_log:
  "clean_log (fst (check_artist now t a (st, u))) =
     clean_log st @ (if track_artist t \<noteq> apple_artist a
        then [\<lparr>plex_rating_key = sqlite_text (KeyInt (ratingKey t)), field = ''artist'', old_value = track_artist t,
               new_value = apple_artist a, timestamp = now (length (clean_log st))\<rparr>] else [])"
  by (simp add: check_artist_def record_change_def)

lemma check_album_log:
  "clean_log (fst (check_album now t a (st, u))) =
     clean_log st @ (if parentTitle t \<noteq> apple_album a
        then [\<lparr>plex_rating_key = sqlite_text (KeyInt (ratingKey t)), field = ''album'', old_value = parentTitle t,
               new_value = apple_album a, timestamp = now (length (clean_log st))\<rparr>] else [])"
  by (simp add: check_album_def record_change_def)

lemma compare_metadata_log:
  "\<exists>new. clean_log (fst (compare_metadata now t a st)) = clean_log st @ new
        \<and> map entry_columns new = spec_change_entries t a"
proof -
  obtain s1 u1 where c1: "check_title now t a (st, False) = (s1, u1)" by (cases "check_title now t a (st, False)")
  obtain s2 u2 where c2: "check_artist now t a (s1, u1) = (s2, u2)" by (cases "check_artist now t a (s1, u1)")
  obtain s3 u3 where c3: "check_album now t a (s2, u2) = (s3, u3)" by (cases "check_album now t a (s2, u2)")
  have l1: "clean_log s1 = clean_log st @ (if title t \<noteq> apple_title a
        then [\<lparr>plex_rating_key = sqlite_text (KeyInt (ratingKey t)), field = ''title'', old_value = title t,
               new_value = apple_title a, timestamp = now (length (clean_log st))\<rparr>] else [])"
    using check_title_log[of now t a st False] c1 by simp
  have l2: "clean_log s2 = clean_log s1 @ (if track_artist t \<noteq> apple_artist a
        then [\<lparr>plex_rating_key = sqlite_text (KeyInt (ratingKey t)), field = ''artist'', old_value = track_artist t,
               new_value = apple_artist a, timestamp = now (length (clean_log s1))\<rparr>] else [])"
    using check_artist_log[of now t a s1 u1] c2 by simp
  have l3: "clean_log s3 = clean_log s2 @ (if parentTitle t \<noteq> apple_album a
        then [\<lparr>plex_rating_key = sqlite_text (KeyInt (ratingKey t)), field = ''album'', old_value = parentTitle t,
               new_value = apple_album a, timestamp = now (length (clean_log s2))\<rparr>] else [])"
    using check_album_log[of now t a s2 u2] c3 by simp
  have "fst (compare_metadata now t a st) = s3"
    by (simp add: compare_metadata_def c1 c2 c3)
  then show ?thesis
    unfolding l1 l2 l3 spec_change_entries_def entry_columns_def
    by (simp add: l1 l2 l3)
qed

lemma compare_metadata_new_entries:
  "map entry_columns (new_entries st (fst (compare_metadata now t a st))) = spec_change_entries t a
   \<and> take (length (clean_log st)) (clean_log (fst (compare_metadata now t a st))) = clean_log st"
proof -
  obtain new where "clean_log (fst (compare_metadata now t a st)) = clean_log st @ new"
      "map entry_columns new = spec_change_entries t a"
    using compare_metadata_log by blast
  then show ?thesis by (simp add: new_entries_def)
qed

lemma compare_metadata_frame:
  "edits (fst (compare_metadata now t a st)) = edits st
   \<and> skipped_tracks (stats (fst (compare_metadata now t a st))) = skipped_tracks (stats st)"
  by (simp add: compare_metadata_def check_title_def check_artist_def check_album_def)

lemma compare_metadata_keys:
  "\<exists>new. clean_log (fst (compare_metadata now t a st)) = clean_log st @ new
        \<and> list_all (\<lambda>e. plex_rating_key e = sqlite_text (KeyInt (ratingKey t))) new"
proof -
  obtain new where n: "clean_log (fst (compare_metadata now t a st)) = clean_log st @ new"
    and c: "map entry_columns new = spec_change_entries t a"
    using compare_metadata_log by blast
  have "list_all (\<lambda>c. fst c = sqlite_text (KeyInt (ratingKey t))) (spec_change_entries t a)"
    by (simp add: spec_change_entries_def)
  then have "list_all (\<lambda>c. fst c = sqlite_text (KeyInt (ratingKey t))) (map entry_columns new)"
    by (simp add: c)
  then have "list_all (\<lambda>e. plex_rating_key e = sqlite_text (KeyInt (ratingKey t))) new"
    by (simp add: list_all_iff entry_columns_def)
  with n show ?thesis by blast
qed

text \<open>
  Claim C2. For a matched pair, the differ (lines 820 to 842 of \<open>clean_all_tracks\<close>)
  adds no Change Entry when title, artist and album are all equal as strings; when exactly
  one of the three differs it adds exactly one Change Entry, for that field, whose old
  value is the managed value and whose new value is the source value. In general the
  entries added are the ones the spec's rule lists, and the earlier rows stay in place.
\<close>

theorem differ_change_entries:
  "(title t = apple_title a \<and> track_artist t = apple_artist a \<and> parentTitle t = apple_album a
      \<longrightarrow> new_entries st (fst (compare_metadata now t a st)) = [])
   \<and> (title t \<noteq> apple_title a \<and> track_artist t = apple_artist a \<and> parentTitle t = apple_album a
      \<longrightarrow> map entry_columns (new_entries st (fst (compare_metadata now t a st))) =
            [(sqlite_text (KeyInt (ratingKey t)), ''title'', title t, apple_title a)])
   \<and> (title t = apple_title a \<and> track_artist t \<noteq> apple_artist a \<and> parentTitle t = apple_album a
      \<longrightarrow> map entry_columns (new_entries st (fst (compare_metadata now t a st))) =
            [(sqlite_text (KeyInt (ratingKey t)), ''artist'', track_artist t, apple_artist a)])
   \<and> (title t = apple_title a \<and> track_artist t = apple_artist a \<and> parentTitle t \<noteq> apple_album a
      \<longrightarrow> map entry_columns (new_entries st (fst (compare_metadata now t a st))) =
            [(sqlite_text (KeyInt (ratingKey t)), ''album'', parentTitle t, apple_album a)])
   \<and> map entry_columns (new_entries st (fst (compare_metadata now t a st))) = spec_change_entries t a
   \<and> take (length (clean_log st)) (clean_log (fst (compare_metadata now t a st))) = clean_log st"
proof -
  have e: "map entry_columns (new_entries st (fst (compare_metadata now t a st))) = spec_change_entries t a"
    and p: "take (length (clean_log st)) (clean_log (fst (compare_metadata now t a st))) = clean_log st"
    using compare_metadata_new_entries by blast+
  have z: "new_entries st (fst (compare_metadata now t a st)) = []"
    if "spec_change_entries t a = []"
    using e that by simp
  show ?thesis
    using e p z by (simp add: spec_change_entries_def)
qed

text \<open>The theorem at scenario 1 and at three variations of its source record.\<close>

theorem differ_change_entries_witness:
  "map entry_columns (new_entries empty_state
       (fst (compare_metadata (\<lambda>n. ''2024-01-01T00:00:00'') scenario_track
          \<lparr>apple_title = ''X'', apple_artist = ''Y'', apple_album = ''Z''\<rparr> empty_state))) =
     [(''1001'', ''title'', ''Old'', ''X'')]
   \<and> new_entries empty_state
       (fst (compare_metadata (\<lambda>n. ''2024-01-01T00:00:00'') scenario_track
          \<lparr>apple_title = ''Old'', apple_artist = ''Y'', apple_album = ''Z''\<rparr> empty_state)) = []
   \<and> map entry_columns (new_entries empty_state
       (fst (compare_metadata (\<lambda>n. ''2024-01-01T00:00:00'') scenario_track
          \<lparr>apple_title = ''Old'', apple_artist = ''y'', apple_album = ''Z''\<rparr> empty_state))) =
     [(''1001'', ''artist'', ''Y'', ''y'')]
   \<and> map entry_columns (new_entries empty_state
       (fst (compare_metadata (\<lambda>n. ''2024-01-01T00:00:00'') scenario_track
          \<lparr>apple_title = ''Old'', apple_artist = ''Y'', apple_album = ''Z ''\<rparr> empty_state))) =
     [(''1001'', ''album'', ''Z'', ''Z '')]"
proof -
  let ?now = "\<lambda>n::nat. ''2024-01-01T00:00:00''"
  have t: "title scenario_track = ''Old''" "track_artist scenario_track = ''Y''"
      "parentTitle scenario_track = ''Z''" "ratingKey scenario_track = 1001"
    by (simp_all add: scenario_track_def track_artist_def)
  show ?thesis
    using
      differ_change_entries[of scenario_track
        "\<lparr>apple_title = ''X'', apple_artist = ''Y'', apple_album = ''Z''\<rparr>" empty_state ?now]
      differ_change_entries[of scenario_track
        "\<lparr>apple_title = ''Old'', apple_artist = ''Y'', apple_album = ''Z''\<rparr>" empty_state ?now]
      differ_change_entries[of scenario_track
        "\<lparr>apple_title = ''Old'', apple_artist = ''y'', apple_album = ''Z''\<rparr>" empty_state ?now]
      differ_change_entries[of scenario_track
        "\<lparr>apple_title = ''Old'', apple_artist = ''Y'', apple_album = ''Z ''\<rparr>" empty_state ?now]
    by (simp add: t int_text_1001)
qed

section \<open>Properties of the identity resolver\<close>

lemma find_first_index:
  assumes "i < length xs" "P (xs ! i)" "\<forall>j<i. \<not> P (xs ! j)"
  shows "find P xs = Some (xs ! i)"
  using assms by (auto simp: find_Some_iff)

text \<open>
  Claim C1. If the catalog has a record under the managed record's raw path, the lookup
  returns that record. Otherwise, if some catalog path has the same basename, the first
  such record in catalog order is returned. Otherwise the lookup reports no match,
  whatever the titles and artists are, and the loop leaves the run state as it was.
\<close>

theorem find_apple_track_tiers:
  "(distinct (map fst cat) \<and> (p, m) \<in> set cat \<longrightarrow> find_apple_track bn cat p = Some m)
   \<and> (p \<notin> fst ` set cat \<and> i < length cat \<and> bn (fst (cat ! i)) = bn p
        \<and> (\<forall>j<i. bn (fst (cat ! j)) \<noteq> bn p)
        \<longrightarrow> find_apple_track bn cat p = Some (snd (cat ! i)))
   \<and> (p \<notin> fst ` set cat \<and> (\<forall>e\<in>set cat. bn (fst e) \<noteq> bn p)
        \<longrightarrow> find_apple_track bn cat p = None)
   \<and> (KeyInt (ratingKey t) \<notin> S \<and> media t = Some ms \<and> truthy (get_file_path ms None)
        \<and> find_apple_track bn cat (the (get_file_path ms None)) = None
        \<longrightarrow> process_track bn now acc cat S st t = st)"
proof -
  have a: "find_apple_track bn cat p = Some m" if "distinct (map fst cat)" "(p, m) \<in> set cat"
    using that by (simp add: find_apple_track_def)
  have b: "find_apple_track bn cat p = Some (snd (cat ! i))"
    if "p \<notin> fst ` set cat" "i < length cat" "bn (fst (cat ! i)) = bn p"
       "\<forall>j<i. bn (fst (cat ! j)) \<noteq> bn p"
  proof -
    have "map_of cat p = None" using that(1) by (simp add: map_of_eq_None_iff)
    moreover have "find (\<lambda>(apple_path, metadata). bn apple_path = bn p) cat = Some (cat ! i)"
      using that(2,3,4) by (intro find_first_index) (auto simp: case_prod_unfold)
    ultimately show ?thesis by (simp add: find_apple_track_def)
  qed
  have c: "find_apple_track bn cat p = None"
    if "p \<notin> fst ` set cat" "\<forall>e\<in>set cat. bn (fst e) \<noteq> bn p"
  proof -
    have "map_of cat p = None" using that(1) by (simp add: map_of_eq_None_iff)
    moreover have "find (\<lambda>(apple_path, metadata). bn apple_path = bn p) cat = None"
      using that(2) by (auto simp: find_None_iff)
    ultimately show ?thesis by (simp add: find_apple_track_def)
  qed
  have d: "process_track bn now acc cat S st t = st"
    if "KeyInt (ratingKey t) \<notin> S" "media t = Some ms" "truthy (get_file_path ms None)"
       "find_apple_track bn cat (the (get_file_path ms None)) = None"
    using that by (simp add: process_track_def)
  show ?thesis using a b c d by blast
qed

text \<open>The theorem at a catalog with two records of one basename.\<close>

theorem find_apple_track_tiers_witness:
  "find_apple_track posix_basename two_copies_catalog ''/backup/a.mp3'' =
     Some \<lparr>apple_title = ''X2'', apple_artist = ''Y2'', apple_album = ''Z2''\<rparr>
   \<and> find_apple_track posix_basename two_copies_catalog ''/mnt/music/a.mp3'' =
     Some \<lparr>apple_title = ''X'', apple_artist = ''Y'', apple_album = ''Z''\<rparr>
   \<and> find_apple_track posix_basename two_copies_catalog ''/mnt/music/b.mp3'' = None
   \<and> process_track posix_basename (\<lambda>n. ''2024-01-01T00:00:00'') (\<lambda>t f. True) two_copies_catalog {}
        empty_state (scenario_track\<lparr>media := Some [[Some ''/mnt/music/b.mp3'']]\<rparr>) = empty_state"
proof -
  let ?mB = "\<lparr>apple_title = ''X2'', apple_artist = ''Y2'', apple_album = ''Z2''\<rparr>"
  let ?t = "scenario_track\<lparr>media := Some [[Some ''/mnt/music/b.mp3'']]\<rparr>"
  let ?ms = "[[Some ''/mnt/music/b.mp3'']]"
  let ?now = "\<lambda>n::nat. ''2024-01-01T00:00:00''"
  let ?acc = "\<lambda>(t::plex_track) (f::update_fields). True"
  have bn: "posix_basename ''/music/a.mp3'' = ''a.mp3''" "posix_basename ''/backup/a.mp3'' = ''a.mp3''"
    "posix_basename ''/mnt/music/a.mp3'' = ''a.mp3''" "posix_basename ''/mnt/music/b.mp3'' = ''b.mp3''"
    "posix_basename ''/music/intro.mp3'' = ''intro.mp3''"
    by (simp_all add: posix_basename_def)
  have ix: "two_copies_catalog ! 0 =
        (''/music/intro.mp3'', \<lparr>apple_title = ''I'', apple_artist = ''Y'', apple_album = ''Z''\<rparr>)"
      "two_copies_catalog ! 1 =
        (''/music/a.mp3'', \<lparr>apple_title = ''X'', apple_artist = ''Y'', apple_album = ''Z''\<rparr>)"
      "two_copies_catalog ! Suc 0 =
        (''/music/a.mp3'', \<lparr>apple_title = ''X'', apple_artist = ''Y'', apple_album = ''Z''\<rparr>)"
      "length two_copies_catalog = 3"
      "fst ` set two_copies_catalog = {''/music/intro.mp3'', ''/music/a.mp3'', ''/backup/a.mp3''}"
    by (simp_all add: two_copies_catalog_def)
  have h1: "distinct (map fst two_copies_catalog) \<and> (''/backup/a.mp3'', ?mB) \<in> set two_copies_catalog"
    by (simp add: two_copies_catalog_def)
  have h2: "''/mnt/music/a.mp3'' \<notin> fst ` set two_copies_catalog \<and> 1 < length two_copies_catalog
      \<and> posix_basename (fst (two_copies_catalog ! 1)) = posix_basename ''/mnt/music/a.mp3''
      \<and> (\<forall>j<1. posix_basename (fst (two_copies_catalog ! j)) \<noteq> posix_basename ''/mnt/music/a.mp3'')"
    by (simp add: ix bn)
  have h3: "''/mnt/music/b.mp3'' \<notin> fst ` set two_copies_catalog
      \<and> (\<forall>e\<in>set two_copies_catalog. posix_basename (fst e) \<noteq> posix_basename ''/mnt/music/b.mp3'')"
    by (simp add: two_copies_catalog_def bn)
  note t1 = find_apple_track_tiers[of two_copies_catalog "''/backup/a.mp3''" ?mB posix_basename 1 ?t
      "{}" ?ms ?now ?acc empty_state]
  note t2 = find_apple_track_tiers[of two_copies_catalog "''/mnt/music/a.mp3''" ?mB posix_basename 1 ?t
      "{}" ?ms ?now ?acc empty_state]
  note t3 = find_apple_track_tiers[of two_copies_catalog "''/mnt/music/b.mp3''" ?mB posix_basename 1 ?t
      "{}" ?ms ?now ?acc empty_state]
  have r1: "find_apple_track posix_basename two_copies_catalog ''/backup/a.mp3'' = Some ?mB"
    by (rule mp[OF t1[THEN conjunct1] h1])
  have "find_apple_track posix_basename two_copies_catalog ''/mnt/music/a.mp3'' =
      Some (snd (two_copies_catalog ! 1))"
    by (rule mp[OF t2[THEN conjunct2, THEN conjunct1] h2])
  then have r2: "find_apple_track posix_basename two_copies_catalog ''/mnt/music/a.mp3'' =
      Some \<lparr>apple_title = ''X'', apple_artist = ''Y'', apple_album = ''Z''\<rparr>"
    by (simp add: ix)
  have r3: "find_apple_track posix_basename two_copies_catalog ''/mnt/music/b.mp3'' = None"
    by (rule mp[OF t3[THEN conjunct2, THEN conjunct2, THEN conjunct1] h3])
  have h4: "KeyInt (ratingKey ?t) \<notin> {} \<and> media ?t = Some ?ms \<and> truthy (get_file_path ?ms None)
      \<and> find_apple_track posix_basename two_copies_catalog (the (get_file_path ?ms None)) = None"
    using r3 by simp
  have r4: "process_track posix_basename ?now ?acc two_copies_catalog {} empty_state ?t = empty_state"
    by (rule mp[OF t3[THEN conjunct2, THEN conjunct2, THEN conjunct2] h4])
  show ?thesis using r1 r2 r3 r4 by simp
qed

section \<open>Properties of the full clean\<close>

lemma update_track_metadata_trace:
  "\<exists>ne. snd (update_track_metadata acc t x y z tr) = tr @ ne
       \<and> list_all (\<lambda>c. fst c = ratingKey t) ne"
  by (auto simp: update_track_metadata_def Let_def split: sum.splits)

lemma apply_update_effect:
  "clean_log (apply_update acc t a (st, u)) = clean_log st
   \<and> skipped_tracks (stats (apply_update acc t a (st, u))) = skipped_tracks (stats st)
   \<and> (\<exists>ne. edits (apply_update acc t a (st, u)) = edits st @ ne
          \<and> list_all (\<lambda>c. fst c = ratingKey t) ne)"
proof (cases u)
  case False
  then show ?thesis by (simp add: apply_update_def)
next
  case True
  obtain ok tr where r: "update_track_metadata acc t (Some (apple_title a))
      (Some (apple_artist a)) (Some (apple_album a)) (edits st) = (ok, tr)"
    by (cases "update_track_metadata acc t (Some (apple_title a))
      (Some (apple_artist a)) (Some (apple_album a)) (edits st)")
  obtain ne where "tr = edits st @ ne" "list_all (\<lambda>c. fst c = ratingKey t) ne"
    using update_track_metadata_trace[of acc t "Some (apple_title a)" "Some (apple_artist a)"
        "Some (apple_album a)" "edits st"] r by auto
  with True r show ?thesis
    by (simp add: apply_update_def)
qed

lemma process_track_skip:
  "KeyInt (ratingKey t) \<in> S \<Longrightarrow>
   process_track bn now acc cat S st t =
     st\<lparr>stats := (stats st)\<lparr>skipped_tracks := skipped_tracks (stats st) + 1\<rparr>\<rparr>"
  by (simp add: process_track_def)

lemma process_track_effect:
  assumes "KeyInt (ratingKey t) \<notin> S"
  shows "\<exists>new ne. clean_log (process_track bn now acc cat S st t) = clean_log st @ new
           \<and> edits (process_track bn now acc cat S st t) = edits st @ ne
           \<and> list_all (\<lambda>e. plex_rating_key e = sqlite_text (KeyInt (ratingKey t))) new
           \<and> list_all (\<lambda>c. fst c = ratingKey t) ne
           \<and> skipped_tracks (stats (process_track bn now acc cat S st t)) = skipped_tracks (stats st)"
proof (cases "media t")
  case None
  with assms show ?thesis by (simp add: process_track_def)
next
  case (Some ms)
  show ?thesis
  proof (cases "truthy (get_file_path ms None)")
    case False
    with assms Some show ?thesis by (simp add: process_track_def)
  next
    case True
    show ?thesis
    proof (cases "find_apple_track bn cat (the (get_file_path ms None))")
      case None
      with assms Some True show ?thesis by (simp add: process_track_def)
    next
      case (Some a)
      let ?st1 = "st\<lparr>stats := (stats st)\<lparr>matched_tracks := matched_tracks (stats st) + 1\<rparr>\<rparr>"
      obtain s2 u2 where c: "compare_metadata now t a ?st1 = (s2, u2)"
        by (cases "compare_metadata now t a ?st1")
      have p: "process_track bn now acc cat S st t = apply_update acc t a (s2, u2)"
        using assms \<open>media t = Some ms\<close> True Some c by (simp add: process_track_def)
      obtain new where n: "clean_log s2 = clean_log st @ new"
          "list_all (\<lambda>e. plex_rating_key e = sqlite_text (KeyInt (ratingKey t))) new"
        using compare_metadata_keys[of now t a ?st1] c by auto
      have f: "edits s2 = edits st" "skipped_tracks (stats s2) = skipped_tracks (stats st)"
        using compare_metadata_frame[of now t a ?st1] c by auto
      obtain ne where e: "edits (apply_update acc t a (s2, u2)) = edits s2 @ ne"
          "list_all (\<lambda>c. fst c = ratingKey t) ne"
        using apply_update_effect[of acc t a s2 u2] by blast
      have g: "clean_log (apply_update acc t a (s2, u2)) = clean_log s2"
         "skipped_tracks (stats (apply_update acc t a (s2, u2))) = skipped_tracks (stats s2)"
        using apply_update_effect[of acc t a s2 u2] by auto
      show ?thesis
        unfolding p using n f e g by auto
    qed
  qed
qed

lemma clean_loop_skipped:
  "skipped_tracks (stats (foldl (process_track bn now acc cat S) st ts)) =
     skipped_tracks (stats st) + length (filter (\<lambda>t. KeyInt (ratingKey t) \<in> S) ts)"
proof (induction ts arbitrary: st)
  case Nil
  show ?case by simp
next
  case (Cons t ts)
  let ?s1 = "process_track bn now acc cat S st t"
  show ?case
  proof (cases "KeyInt (ratingKey t) \<in> S")
    case True
    have "?s1 = st\<lparr>stats := (stats st)\<lparr>skipped_tracks := skipped_tracks (stats st) + 1\<rparr>\<rparr>"
      using True by (rule process_track_skip)
    then have "skipped_tracks (stats ?s1) = skipped_tracks (stats st) + 1"
      by simp
    with Cons.IH[of ?s1] True show ?thesis by simp
  next
    case False
    have "skipped_tracks (stats ?s1) = skipped_tracks (stats st)"
      using process_track_effect[OF False, of bn now acc cat st] by blast
    with Cons.IH[of ?s1] False show ?thesis by simp
  qed
qed

text \<open>A set of \<open>str\<close> holds no \<open>int\<close>: the skip test of a run can never succeed.\<close>

lemma int_key_not_cleaned: "KeyInt k \<notin> KeyStr ` get_cleaned_tracks log0"
  by auto

lemma posix_basename_scenario:
  "posix_basename ''/mnt/music/a.mp3'' = ''a.mp3''" "posix_basename ''/music/a.mp3'' = ''a.mp3''"
  by (simp_all add: posix_basename_def)

lemma scenario_find:
  "find_apple_track posix_basename scenario_catalog ''/mnt/music/a.mp3'' =
     Some \<lparr>apple_title = ''X'', apple_artist = ''Y'', apple_album = ''Z''\<rparr>"
  by (simp add: find_apple_track_def scenario_catalog_def posix_basename_scenario)

lemma scenario_first_run:
  "clean_all_tracks posix_basename now acc [scenario_track] scenario_catalog [] =
     \<lparr>stats = \<lparr>total_tracks = 1, matched_tracks = 1, updated_tracks = 1,
       title_updates = 1, artist_updates = 0, album_updates = 0, skipped_tracks = 0\<rparr>,
      clean_log = [\<lparr>plex_rating_key = ''1001'', field = ''title'', old_value = ''Old'',
                     new_value = ''X'', timestamp = now 0\<rparr>],
      edits = [(1001, [(''title'', ''X''), (''originalTitle'', ''Y'')],
                acc scenario_track [(''title'', ''X''), (''originalTitle'', ''Y'')])]\<rparr>"
proof -
  have m: "media scenario_track = Some [[Some ''/mnt/music/a.mp3'']]"
    "ratingKey scenario_track = 1001" "title scenario_track = ''Old''"
    "originalTitle scenario_track = None" "grandparentTitle scenario_track = ''Y''"
    "parentTitle scenario_track = ''Z''"
    by (simp_all add: scenario_track_def)
  have n: "KeyInt 1001 \<notin> KeyStr ` get_cleaned_tracks []"
    by (rule int_key_not_cleaned)
  show ?thesis
    by (cases "acc scenario_track [(''title'', ''X''), (''originalTitle'', ''Y'')]")
      (simp_all add: clean_all_tracks_def clean_tracks_def n process_track_def m
        scenario_find compare_metadata_def check_title_def check_artist_def check_album_def
        track_artist_def apply_update_def update_track_metadata_def track_edit_def record_change_def
        int_text_1001 Let_def)
qed

text \<open>
  The second run on the same inputs and on the log the first run left: the track is
  processed again.
\<close>

lemma scenario_second_run:
  "clean_all_tracks posix_basename now acc [scenario_track] scenario_catalog
     (clean_log (clean_all_tracks posix_basename now acc [scenario_track] scenario_catalog [])) =
   \<lparr>stats = \<lparr>total_tracks = 1, matched_tracks = 1, updated_tracks = 1,
       title_updates = 1, artist_updates = 0, album_updates = 0, skipped_tracks = 0\<rparr>,
      clean_log = [\<lparr>plex_rating_key = ''1001'', field = ''title'', old_value = ''Old'',
                     new_value = ''X'', timestamp = now 0\<rparr>,
                   \<lparr>plex_rating_key = ''1001'', field = ''title'', old_value = ''Old'',
                     new_value = ''X'', timestamp = now 1\<rparr>],
      edits = [(1001, [(''title'', ''X''), (''originalTitle'', ''Y'')],
                acc scenario_track [(''title'', ''X''), (''originalTitle'', ''Y'')])]\<rparr>"
proof -
  let ?log1 = "[\<lparr>plex_rating_key = ''1001'', field = ''title'', old_value = ''Old'',
                     new_value = ''X'', timestamp = now 0\<rparr>]"
  have m: "media scenario_track = Some [[Some ''/mnt/music/a.mp3'']]"
    "ratingKey scenario_track = 1001" "title scenario_track = ''Old''"
    "originalTitle scenario_track = None" "grandparentTitle scenario_track = ''Y''"
    "parentTitle scenario_track = ''Z''"
    by (simp_all add: scenario_track_def)
  have n: "KeyInt 1001 \<notin> KeyStr ` get_cleaned_tracks ?log1"
    by (rule int_key_not_cleaned)
  show ?thesis
    unfolding scenario_first_run
    by (cases "acc scenario_track [(''title'', ''X''), (''originalTitle'', ''Y'')]")
      (simp_all add: clean_all_tracks_def clean_tracks_def n process_track_def m
        scenario_find compare_metadata_def check_title_def check_artist_def check_album_def
        track_artist_def apply_update_def update_track_metadata_def track_edit_def record_change_def
        int_text_1001 Let_def)
qed

lemma apply_update_log:
  "clean_log (apply_update acc t a su) = clean_log (fst su)"
  using apply_update_effect[of acc t a "fst su" "snd su"] by simp

lemma process_track_matched:
  assumes "KeyInt (ratingKey t) \<notin> S" "media t = Some ms" "truthy (get_file_path ms None)"
    "find_apple_track bn cat (the (get_file_path ms None)) = Some a"
  shows "map entry_columns (new_entries st (process_track bn now acc cat S st t)) =
     spec_change_entries t a"
proof -
  let ?st1 = "st\<lparr>stats := (stats st)\<lparr>matched_tracks := matched_tracks (stats st) + 1\<rparr>\<rparr>"
  have p: "process_track bn now acc cat S st t =
      apply_update acc t a (compare_metadata now t a ?st1)"
    using assms by (simp add: process_track_def)
  have "clean_log (process_track bn now acc cat S st t) =
      clean_log (fst (compare_metadata now t a ?st1))"
    unfolding p by (rule apply_update_log)
  then have "new_entries st (process_track bn now acc cat S st t) =
      new_entries ?st1 (fst (compare_metadata now t a ?st1))"
    by (simp add: new_entries_def)
  then show ?thesis
    using compare_metadata_new_entries[of ?st1 now t a] by simp
qed

text \<open>
  Claim C8. The managed artist the differ compares is the per-track \<open>originalTitle\<close> when
  that is present (neither \<open>None\<close> nor empty), and the \<open>grandparentTitle\<close> otherwise; an
  artist Change Entry is logged exactly when that value differs from the source artist,
  with that value as old value. This holds for the differ alone and for a whole loop
  iteration on a matched track, and \<open>clean_all_tracks\<close> and \<open>clean_artist_tracks\<close> are both
  that loop.
\<close>

theorem artist_override_then_fallback:
  "(originalTitle t = Some s \<and> s \<noteq> [] \<longrightarrow> track_artist t = s)
   \<and> (originalTitle t = None \<or> originalTitle t = Some [] \<longrightarrow> track_artist t = grandparentTitle t)
   \<and> filter (\<lambda>c. fst (snd c) = ''artist'')
        (map entry_columns (new_entries st (fst (compare_metadata now t a st)))) =
       (if track_artist t \<noteq> apple_artist a
        then [(sqlite_text (KeyInt (ratingKey t)), ''artist'', track_artist t, apple_artist a)] else [])
   \<and> (KeyInt (ratingKey t) \<notin> S \<and> media t = Some ms \<and> truthy (get_file_path ms None)
        \<and> find_apple_track bn cat (the (get_file_path ms None)) = Some a
      \<longrightarrow> filter (\<lambda>c. fst (snd c) = ''artist'')
            (map entry_columns (new_entries st (process_track bn now acc cat S st t))) =
          (if track_artist t \<noteq> apple_artist a
           then [(sqlite_text (KeyInt (ratingKey t)), ''artist'', track_artist t, apple_artist a)] else []))
   \<and> clean_all_tracks bn now acc ts cat log0 =
       foldl (process_track bn now acc cat (KeyStr ` get_cleaned_tracks log0))
         \<lparr>stats = \<lparr>total_tracks = length ts, matched_tracks = 0, updated_tracks = 0,
                    title_updates = 0, artist_updates = 0, album_updates = 0,
                    skipped_tracks = 0\<rparr>, clean_log = log0, edits = []\<rparr> ts
   \<and> clean_artist_tracks bn now acc plex_by_artist apple_by_artist log0 artist_name =
       foldl (process_track bn now acc (apple_by_artist artist_name) (KeyStr ` get_cleaned_tracks log0))
         \<lparr>stats = \<lparr>total_tracks = length (plex_by_artist artist_name), matched_tracks = 0,
                    updated_tracks = 0, title_updates = 0, artist_updates = 0, album_updates = 0,
                    skipped_tracks = 0\<rparr>, clean_log = log0, edits = []\<rparr>
         (plex_by_artist artist_name)"
proof -
  have f: "filter (\<lambda>c. fst (snd c) = ''artist'') (spec_change_entries t a) =
       (if track_artist t \<noteq> apple_artist a
        then [(sqlite_text (KeyInt (ratingKey t)), ''artist'', track_artist t, apple_artist a)] else [])"
    by (simp add: spec_change_entries_def)
  have c: "filter (\<lambda>c. fst (snd c) = ''artist'')
        (map entry_columns (new_entries st (fst (compare_metadata now t a st)))) =
       (if track_artist t \<noteq> apple_artist a
        then [(sqlite_text (KeyInt (ratingKey t)), ''artist'', track_artist t, apple_artist a)] else [])"
    using compare_metadata_new_entries[of st now t a] f by simp
  have p: "filter (\<lambda>c. fst (snd c) = ''artist'')
            (map entry_columns (new_entries st (process_track bn now acc cat S st t))) =
          (if track_artist t \<noteq> apple_artist a
           then [(sqlite_text (KeyInt (ratingKey t)), ''artist'', track_artist t, apple_artist a)] else [])"
    if "KeyInt (ratingKey t) \<notin> S" "media t = Some ms" "truthy (get_file_path ms None)"
       "find_apple_track bn cat (the (get_file_path ms None)) = Some a"
    using process_track_matched[OF that, of st now acc] f by simp
  have o1: "originalTitle t = Some s \<and> s \<noteq> [] \<longrightarrow> track_artist t = s"
    by (simp add: track_artist_def)
  have o2: "originalTitle t = None \<or> originalTitle t = Some [] \<longrightarrow> track_artist t = grandparentTitle t"
    by (auto simp: track_artist_def)
  have w1: "clean_all_tracks bn now acc ts cat log0 =
       foldl (process_track bn now acc cat (KeyStr ` get_cleaned_tracks log0))
         \<lparr>stats = \<lparr>total_tracks = length ts, matched_tracks = 0, updated_tracks = 0,
                    title_updates = 0, artist_updates = 0, album_updates = 0,
                    skipped_tracks = 0\<rparr>, clean_log = log0, edits = []\<rparr> ts"
    by (simp add: clean_all_tracks_def clean_tracks_def)
  have w2: "clean_artist_tracks bn now acc plex_by_artist apple_by_artist log0 artist_name =
       foldl (process_track bn now acc (apple_by_artist artist_name) (KeyStr ` get_cleaned_tracks log0))
         \<lparr>stats = \<lparr>total_tracks = length (plex_by_artist artist_name), matched_tracks = 0,
                    updated_tracks = 0, title_updates = 0, artist_updates = 0, album_updates = 0,
                    skipped_tracks = 0\<rparr>, clean_log = log0, edits = []\<rparr>
         (plex_by_artist artist_name)"
    by (simp add: clean_artist_tracks_def clean_tracks_def)
  show ?thesis using o1 o2 c p w1 w2 by blast
qed

text \<open>The theorem at a track with an override, without one, and with an empty one.\<close>

theorem artist_override_then_fallback_witness:
  "track_artist (scenario_track\<lparr>originalTitle := Some ''Solo''\<rparr>) = ''Solo''
   \<and> track_artist scenario_track = ''Y''
   \<and> track_artist (scenario_track\<lparr>originalTitle := Some []\<rparr>) = ''Y''
   \<and> filter (\<lambda>c. fst (snd c) = ''artist'')
        (map entry_columns (new_entries empty_state
           (process_track posix_basename (\<lambda>n. ''2024-01-01T00:00:00'') (\<lambda>t f. True)
              scenario_catalog {} empty_state (scenario_track\<lparr>originalTitle := Some ''Solo''\<rparr>)))) =
       [(''1001'', ''artist'', ''Solo'', ''Y'')]"
proof -
  let ?now = "\<lambda>n::nat. ''2024-01-01T00:00:00''"
  let ?acc = "\<lambda>(t::plex_track) (f::update_fields). True"
  let ?a = "\<lparr>apple_title = ''X'', apple_artist = ''Y'', apple_album = ''Z''\<rparr>"
  let ?solo = "scenario_track\<lparr>originalTitle := Some ''Solo''\<rparr>"
  let ?blank = "scenario_track\<lparr>originalTitle := Some []\<rparr>"
  let ?ms = "[[Some ''/mnt/music/a.mp3'']]"
  have h1: "originalTitle ?solo = Some ''Solo'' \<and> ''Solo'' \<noteq> []"
    by simp
  have h2: "originalTitle scenario_track = None \<or> originalTitle scenario_track = Some []"
    by (simp add: scenario_track_def)
  have h3: "originalTitle ?blank = None \<or> originalTitle ?blank = Some []"
    by simp
  have h4: "KeyInt (ratingKey ?solo) \<notin> {} \<and> media ?solo = Some ?ms \<and> truthy (get_file_path ?ms None)
      \<and> find_apple_track posix_basename scenario_catalog (the (get_file_path ?ms None)) = Some ?a"
    by (simp add: scenario_track_def scenario_find)
  have g: "grandparentTitle scenario_track = ''Y''" "ratingKey scenario_track = 1001"
    by (simp_all add: scenario_track_def)
  note t1 = artist_override_then_fallback[of ?solo "''Solo''" empty_state ?now ?a "{}" ?ms
      posix_basename scenario_catalog ?acc]
  note t2 = artist_override_then_fallback[of scenario_track "''Solo''" empty_state ?now ?a "{}" ?ms
      posix_basename scenario_catalog ?acc]
  note t3 = artist_override_then_fallback[of ?blank "''Solo''" empty_state ?now ?a "{}" ?ms
      posix_basename scenario_catalog ?acc]
  have r1: "track_artist ?solo = ''Solo''"
    by (rule mp[OF t1[THEN conjunct1] h1])
  have r2: "track_artist scenario_track = ''Y''"
    using mp[OF t2[THEN conjunct2, THEN conjunct1] h2] by (simp add: g)
  have r3: "track_artist ?blank = ''Y''"
    using mp[OF t3[THEN conjunct2, THEN conjunct1] h3] by (simp add: g)
  have r4: "filter (\<lambda>c. fst (snd c) = ''artist'')
        (map entry_columns (new_entries empty_state
           (process_track posix_basename ?now ?acc scenario_catalog {} empty_state ?solo))) =
       [(''1001'', ''artist'', ''Solo'', ''Y'')]"
    using mp[OF t1[THEN conjunct2, THEN conjunct2, THEN conjunct2, THEN conjunct1] h4] r1
    by (simp add: g int_text_1001)
  show ?thesis using r1 r2 r3 r4 by simp
qed

text \<open>
  Claim C4. The claim: in a full clean every managed track whose identity is in
  \<open>get_cleaned_tracks()\<close> is skipped, and running the full clean again after scenario 1
  gives \<open>skipped_tracks = 1\<close> and \<open>updated_tracks = 0\<close>. The code: the skip test compares the
  \<open>int\<close> rating key of the track with the \<open>str\<close> keys read from the log, so no run ever
  skips a track, although the text SQLite stored for the key is in the log. The second
  run after scenario 1 processes the track again: \<open>skipped_tracks = 0\<close>,
  \<open>updated_tracks = 1\<close>, and a second Change Entry for the same title is logged.
\<close>

theorem full_clean_never_skips:
  "skipped_tracks (stats (clean_all_tracks bn now acc ts cat log0)) = 0
   \<and> sqlite_text (KeyInt (ratingKey scenario_track))
       \<in> get_cleaned_tracks
           (clean_log (clean_all_tracks posix_basename now acc [scenario_track] scenario_catalog []))
   \<and> skipped_tracks (stats (clean_all_tracks posix_basename now acc [scenario_track] scenario_catalog
         (clean_log (clean_all_tracks posix_basename now acc [scenario_track] scenario_catalog [])))) = 0
   \<and> updated_tracks (stats (clean_all_tracks posix_basename now acc [scenario_track] scenario_catalog
         (clean_log (clean_all_tracks posix_basename now acc [scenario_track] scenario_catalog [])))) = 1
   \<and> map entry_columns (clean_log (clean_all_tracks posix_basename now acc [scenario_track]
         scenario_catalog
         (clean_log (clean_all_tracks posix_basename now acc [scenario_track] scenario_catalog [])))) =
       [(''1001'', ''title'', ''Old'', ''X''), (''1001'', ''title'', ''Old'', ''X'')]"
proof -
  let ?S = "KeyStr ` get_cleaned_tracks log0"
  let ?init = "\<lparr>stats = \<lparr>total_tracks = length ts, matched_tracks = 0, updated_tracks = 0,
                    title_updates = 0, artist_updates = 0, album_updates = 0,
                    skipped_tracks = 0\<rparr>, clean_log = log0, edits = []\<rparr>"
  have run: "clean_all_tracks bn now acc ts cat log0 = foldl (process_track bn now acc cat ?S) ?init ts"
    by (simp add: clean_all_tracks_def clean_tracks_def)
  have "filter (\<lambda>t. KeyInt (ratingKey t) \<in> ?S) ts = []"
    by (auto simp: filter_empty_conv)
  then have a: "skipped_tracks (stats (clean_all_tracks bn now acc ts cat log0)) = 0"
    using clean_loop_skipped[of bn now acc cat ?S ?init ts] by (simp add: run)
  have b: "sqlite_text (KeyInt (ratingKey scenario_track))
       \<in> get_cleaned_tracks
           (clean_log (clean_all_tracks posix_basename now acc [scenario_track] scenario_catalog []))"
    unfolding scenario_first_run
    by (simp add: get_cleaned_tracks_def scenario_track_def int_text_1001)
  have c: "skipped_tracks (stats (clean_all_tracks posix_basename now acc [scenario_track] scenario_catalog
         (clean_log (clean_all_tracks posix_basename now acc [scenario_track] scenario_catalog [])))) = 0"
    "updated_tracks (stats (clean_all_tracks posix_basename now acc [scenario_track] scenario_catalog
         (clean_log (clean_all_tracks posix_basename now acc [scenario_track] scenario_catalog [])))) = 1"
    "map entry_columns (clean_log (clean_all_tracks posix_basename now acc [scenario_track]
         scenario_catalog
         (clean_log (clean_all_tracks posix_basename now acc [scenario_track] scenario_catalog [])))) =
       [(''1001'', ''title'', ''Old'', ''X''), (''1001'', ''title'', ''Old'', ''X'')]"
    by (simp_all add: scenario_second_run entry_columns_def)
  show ?thesis using a b c by blast
qed

text \<open>
  Claim C9. When the managed library rejects the write of a track,
  \<open>update_track_metadata\<close> catches the failure and returns \<open>False\<close>, and the loop goes on;
  but the track is counted in \<open>updated_tracks\<close> and in \<open>title_updates\<close>, not in
  \<open>skipped_tracks\<close>, and its Change Entry stays in the log. Scenario 1 with a server that
  rejects every edit:
\<close>

theorem rejected_write_counted_as_updated:
  "clean_all_tracks posix_basename now (\<lambda>t f. False) [scenario_track] scenario_catalog [] =
     \<lparr>stats = \<lparr>total_tracks = 1, matched_tracks = 1, updated_tracks = 1,
       title_updates = 1, artist_updates = 0, album_updates = 0, skipped_tracks = 0\<rparr>,
      clean_log = [\<lparr>plex_rating_key = ''1001'', field = ''title'', old_value = ''Old'',
                     new_value = ''X'', timestamp = now 0\<rparr>],
      edits = [(1001, [(''title'', ''X''), (''originalTitle'', ''Y'')], False)]\<rparr>
   \<and> fst (update_track_metadata (\<lambda>t f. False) scenario_track (Some ''X'') (Some ''Y'') (Some ''Z'') []) = False"
proof -
  have "fst (update_track_metadata (\<lambda>t f. False) scenario_track (Some ''X'') (Some ''Y'') (Some ''Z'') []) = False"
    by (simp add: update_track_metadata_def track_edit_def scenario_track_def)
  then show ?thesis
    by (simp add: scenario_first_run)
qed

section \<open>Properties of the path decoders\<close>

lemma split_first_takeWhile:
  "split_first sep s =
     (if sep \<in> set s
      then Some (takeWhile (\<lambda>c. c \<noteq> sep) s, tl (dropWhile (\<lambda>c. c \<noteq> sep) s))
      else None)"
  by (induction s) auto

lemma split_first_Some_iff:
  "split_first sep s = Some (a, b) \<longleftrightarrow> s = a @ sep # b \<and> sep \<notin> set a"
proof (induction s arbitrary: a)
  case Nil
  show ?case by simp
next
  case (Cons c cs)
  show ?case
  proof (cases "c = sep")
    case True
    then show ?thesis by (cases a) auto
  next
    case False
    show ?thesis
    proof (cases a)
      case Nil
      with False show ?thesis by (auto split: option.splits)
    next
      case (Cons x xs)
      with False Cons.IH[of xs] show ?thesis by (auto split: option.splits)
    qed
  qed
qed

text \<open>\<open>volume_form\<close> recognises exactly the paths \<open>/Volumes/<name>/<rest>\<close>.\<close>

lemma volume_form_Some_iff:
  "volume_form p = Some (name, rest) \<longleftrightarrow>
     p = ''/Volumes/'' @ name @ ''/'' @ rest \<and> CHR ''/'' \<notin> set name"
proof
  assume "volume_form p = Some (name, rest)"
  then have pre: "prefix ''/Volumes/'' p" and sf: "split_first CHR ''/'' (drop 9 p) = Some (name, rest)"
    by (auto simp: volume_form_def split: if_splits)
  from pre obtain r where p: "p = ''/Volumes/'' @ r" by (auto simp: prefix_def)
  then have "drop 9 p = r" by simp
  with sf have "r = name @ CHR ''/'' # rest \<and> CHR ''/'' \<notin> set name"
    by (simp add: split_first_Some_iff)
  with p show "p = ''/Volumes/'' @ name @ ''/'' @ rest \<and> CHR ''/'' \<notin> set name" by simp
next
  assume a: "p = ''/Volumes/'' @ name @ ''/'' @ rest \<and> CHR ''/'' \<notin> set name"
  then have "prefix ''/Volumes/'' p" "drop 9 p = name @ CHR ''/'' # rest" by simp_all
  with a show "volume_form p = Some (name, rest)"
    by (simp add: volume_form_def split_first_Some_iff)
qed

lemma py_split_volumes:
  "py_split CHR ''/'' 3 (''/Volumes/'' @ r) =
     (case split_first CHR ''/'' r of
        None \<Rightarrow> ['''', ''Volumes'', r]
      | Some (name, rest) \<Rightarrow> ['''', ''Volumes'', name, rest])"
  by (simp add: numeral_3_eq_3 split_first_takeWhile)

lemma windows_conversion:
  "(if nt \<and> prefix ''/'' p
    then (if prefix ''/Volumes/'' p
          then (let parts = py_split CHR ''/'' 3 p
                in if length parts \<ge> 4
                   then (let drive_name = parts ! 2; rest_of_path = parts ! 3
                         in drive_name @ '':/'' @ rest_of_path)
                   else p)
          else drop 1 p)
    else p) =
   (if nt
    then (case volume_form p of
            Some (name, rest) \<Rightarrow> name @ '':/'' @ rest
          | None \<Rightarrow> if prefix ''/Volumes/'' p then p
                    else if prefix ''/'' p then drop 1 p else p)
    else p)"
proof (cases "prefix ''/Volumes/'' p")
  case True
  then obtain r where p: "p = ''/Volumes/'' @ r" by (auto simp: prefix_def)
  show ?thesis
    unfolding p volume_form_def py_split_volumes
    by (simp split: option.splits)
next
  case False
  then show ?thesis
    by (simp add: volume_form_def)
qed

lemma decode_file_url_try_reference:
  "decode_file_url_try nt location = Inr (decode_reference nt location)
   \<or> (location = PyNone \<and> decode_file_url_try nt location = Inl AttributeError)"
proof (cases location)
  case PyNone
  then show ?thesis by (simp add: decode_file_url_try_def)
next
  case (PyStr url)
  show ?thesis
    unfolding PyStr decode_file_url_try_def windows_conversion
    by (simp add: decode_reference_def Let_def split: option.splits prod.splits)
qed

lemma decode_apple_file_path_try_reference:
  "decode_apple_file_path_try nt location = Inr (decode_reference nt location)
   \<or> (location = PyNone \<and> decode_apple_file_path_try nt location = Inl AttributeError)"
proof (cases location)
  case PyNone
  then show ?thesis by (simp add: decode_apple_file_path_try_def)
next
  case (PyStr encoded)
  show ?thesis
    unfolding PyStr decode_apple_file_path_try_def windows_conversion
    by (simp add: decode_reference_def Let_def split: option.splits prod.splits)
qed

lemma decode_reference_empty: "py_not location \<Longrightarrow> decode_reference nt location = None"
  by (cases location) (simp_all add: decode_reference_def)

text \<open>
  Claim C5, amended. For every location, the decoder of the plist export and the decoder
  of the database adapter both equal \<open>decode_reference\<close>: a value that is not a string
  beginning with \<open>file://\<close> is undecodable; otherwise the scheme is stripped and the rest
  percent-decoded; under the Windows convention a path \<open>/Volumes/<name>/<rest>\<close> becomes
  \<open><name>:/<rest>\<close>, a path that begins with \<open>/Volumes/\<close> and has no further separator is
  left as it is, and any other path that begins with \<open>/\<close> loses that one separator. No
  exception leaves either decoder.
\<close>

theorem decoders_equal_reference:
  "decode_file_url nt location = decode_reference nt location
   \<and> decode_apple_file_path nt location = decode_reference nt location"
proof -
  have n: "decode_reference nt PyNone = None"
    by (simp add: decode_reference_def)
  have a: "decode_file_url nt location = decode_reference nt location"
    using decode_file_url_try_reference[of nt location] n
    by (auto simp: decode_file_url_def)
  have b: "decode_apple_file_path nt location = decode_reference nt location"
    using decode_apple_file_path_try_reference[of nt location] n decode_reference_empty[of location nt]
    by (auto simp: decode_apple_file_path_def)
  show ?thesis using a b by simp
qed

text \<open>
  The claim as stated fails at the location \<open>file:///Volumes/Music\<close> under the Windows
  convention: both decoders leave the path as it is, where the claim's reference removes
  the leading separator.
\<close>

theorem decoders_differ_from_spec_counterexample:
  "decode_file_url True (PyStr ''file:///Volumes/Music'') = Some ''/Volumes/Music''
   \<and> decode_apple_file_path True (PyStr ''file:///Volumes/Music'') = Some ''/Volumes/Music''
   \<and> spec_decode True (PyStr ''file:///Volumes/Music'') = Some ''Volumes/Music''
   \<and> decode_file_url True (PyStr ''file:///Volumes/Music'')
       \<noteq> spec_decode True (PyStr ''file:///Volumes/Music'')"
  by (simp add: decode_file_url_def decode_apple_file_path_def decode_file_url_try_def
      decode_apple_file_path_try_def spec_decode_def unquote_def volume_form_def
      numeral_3_eq_3)

section \<open>The round trip through percent-encoding\<close>

lemma utf8_replace_valid: "utf8_valid p \<Longrightarrow> utf8_replace p = p"
proof (induction p rule: utf8_valid.induct)
  case 1
  show ?case by simp
next
  case (2 b0 bs)
  show ?case
  proof (cases "is_ascii b0")
    case True
    with 2 show ?thesis by simp
  next
    case na: False
    show ?thesis
    proof (cases "in_range 0xC2 0xDF b0")
      case True
      with na 2 show ?thesis by (cases bs) auto
    next
      case n2: False
      show ?thesis
      proof (cases "in_range 0xE0 0xEF b0")
        case True
        from na n2 True "2.prems" obtain b1 b2 r where
          bs: "bs = b1 # b2 # r" and ok: "second_of_three b0 b1" "is_continuation b2" "utf8_valid r"
          by (auto split: list.splits)
        have "utf8_replace r = r"
          using "2.IH"(3)[OF na n2 True bs] ok by simp
        with na n2 True bs ok show ?thesis by simp
      next
        case n3: False
        show ?thesis
        proof (cases "in_range 0xF0 0xF4 b0")
          case True
          from na n2 n3 True "2.prems" obtain b1 b2 b3 r where
            bs: "bs = b1 # b2 # b3 # r"
            and ok: "second_of_four b0 b1" "is_continuation b2" "is_continuation b3" "utf8_valid r"
            by (auto split: list.splits)
          have "utf8_replace r = r"
            using "2.IH"(4)[OF na n2 n3 True bs] ok by simp
          with na n2 n3 True bs ok show ?thesis by simp
        next
          case False
          with na n2 n3 "2.prems" show ?thesis by simp
        qed
      qed
    qed
  qed
qed

lemma of_char_nibbles: "(of_char c :: nat) div 16 < 16" "(of_char c :: nat) mod 16 < 16"
proof -
  have "(of_char c :: nat) < 256" by simp
  then show "(of_char c :: nat) div 16 < 16" by arith
  show "(of_char c :: nat) mod 16 < 16" by simp
qed

lemma hex_value_hex_digit: "k < 16 \<Longrightarrow> hex_value (hex_digit k) = Some k"
  by (simp add: hex_value_def hex_digit_def in_range_def)

lemma hex_digit_props: "k < 16 \<Longrightarrow> is_ascii (hex_digit k)"
  by (simp add: is_ascii_def in_range_def hex_digit_def)

lemma hextobyte_hex_digits:
  "hextobyte (hex_digit (of_char c div 16)) (hex_digit (of_char c mod 16)) = Some c"
proof -
  note a = of_char_nibbles(1)[of c] and b = of_char_nibbles(2)[of c]
  have "char_of (16 * ((of_char c :: nat) div 16) + of_char c mod 16) = c" by simp
  then show ?thesis
    by (simp add: hextobyte_def hex_value_hex_digit[OF a] hex_value_hex_digit[OF b])
qed

lemma unreserved_props: "unreserved c \<Longrightarrow> is_ascii c \<and> c \<noteq> CHR ''%''"
  by (auto simp: unreserved_def is_ascii_def in_range_def)

lemma unquote_to_bytes_plain:
  assumes "c \<noteq> CHR ''%''"
  shows "unquote_to_bytes (c # s) = c # unquote_to_bytes s"
proof (cases s)
  case Nil
  then show ?thesis by simp
next
  case (Cons a s')
  with assms show ?thesis by (cases s') simp_all
qed

lemma unquote_to_bytes_escape:
  "hextobyte a b = Some x \<Longrightarrow> unquote_to_bytes (CHR ''%'' # a # b # s) = x # unquote_to_bytes s"
  by simp

lemma unquote_to_bytes_no_percent:
  "CHR ''%'' \<notin> set s \<Longrightarrow> unquote_to_bytes s = s"
proof (induction s)
  case Nil
  show ?case by simp
next
  case (Cons a s)
  then have "a \<noteq> CHR ''%''" "unquote_to_bytes s = s" by auto
  then show ?case using unquote_to_bytes_plain[of a s] by simp
qed

lemma unquote_to_bytes_percent_encode: "unquote_to_bytes (percent_encode p) = p"
proof (induction p)
  case Nil
  show ?case by (simp add: percent_encode_def)
next
  case (Cons c p)
  have step: "percent_encode (c # p) = percent_encode_byte c @ percent_encode p"
    by (simp add: percent_encode_def)
  show ?case
  proof (cases "unreserved c \<or> c = CHR ''/''")
    case True
    then have "c \<noteq> CHR ''%''" using unreserved_props by auto
    with True Cons show ?thesis
      by (simp add: step percent_encode_byte_def unquote_to_bytes_plain)
  next
    case False
    with Cons show ?thesis
      by (simp add: step percent_encode_byte_def hextobyte_hex_digits del: unquote_to_bytes.simps
          add: unquote_to_bytes_escape)
  qed
qed

lemma percent_encode_ascii: "\<forall>c\<in>set (percent_encode p). is_ascii c"
proof -
  have "\<forall>x\<in>set (percent_encode_byte c). is_ascii x" for c
  proof -
    have "is_ascii CHR ''%''" "is_ascii CHR ''/''" by (simp_all add: is_ascii_def in_range_def)
    then show ?thesis
      using unreserved_props[of c] of_char_nibbles[of c]
      by (auto simp: percent_encode_byte_def hex_digit_props)
  qed
  then show ?thesis by (auto simp: percent_encode_def)
qed

lemma unquote_parts_ascii:
  "\<forall>c\<in>set s. is_ascii c \<Longrightarrow> unquote_parts s = utf8_replace (unquote_to_bytes s)"
proof (cases s)
  case Nil
  then show ?thesis by simp
next
  case (Cons c cs)
  assume a: "\<forall>c\<in>set s. is_ascii c"
  then have "takeWhile is_ascii (c # cs) = c # cs" "dropWhile is_ascii (c # cs) = []"
    using Cons by (simp_all add: takeWhile_eq_all_conv)
  moreover have "is_ascii c" using a Cons by simp
  ultimately have "unquote_parts (c # cs) = utf8_replace (unquote_to_bytes (c # cs)) @ unquote_parts []"
    by (simp only: unquote_parts.simps if_True)
  then show ?thesis
    using Cons by simp
qed

lemma unquote_percent_encode: "utf8_valid p \<Longrightarrow> unquote (percent_encode p) = p"
proof (cases "CHR ''%'' \<in> set (percent_encode p)")
  case False
  then have "unquote_to_bytes (percent_encode p) = percent_encode p"
    by (rule unquote_to_bytes_no_percent)
  then have "percent_encode p = p" by (simp add: unquote_to_bytes_percent_encode)
  with False show ?thesis by (simp add: unquote_def)
next
  case True
  assume v: "utf8_valid p"
  have "unquote (percent_encode p) = unquote_parts (percent_encode p)"
    using True by (simp add: unquote_def)
  also have "\<dots> = utf8_replace (unquote_to_bytes (percent_encode p))"
    using percent_encode_ascii by (rule unquote_parts_ascii)
  also have "\<dots> = p"
    using v by (simp add: unquote_to_bytes_percent_encode utf8_replace_valid)
  finally show ?thesis .
qed

lemma encode_song_path:
  "encode song_path = ''file:///Users/me/Music/My%20Song%20%C3%A9.mp3''"
  by code_simp

lemma utf8_valid_song_path: "utf8_valid song_path"
  by code_simp

text \<open>
  Claim C6, amended. For every path \<open>p\<close> (any text, as well-formed UTF-8): if the local
  convention is not the Windows one, or \<open>p\<close> does not begin with \<open>/\<close>, then decoding the
  encoded form of \<open>p\<close> returns \<open>p\<close>, with either decoder.
\<close>

theorem decode_encode_roundtrip:
  "utf8_valid p \<and> \<not> (nt \<and> prefix ''/'' p) \<longrightarrow>
     decode_file_url nt (PyStr (encode p)) = Some p
     \<and> decode_apple_file_path nt (PyStr (encode p)) = Some p"
proof
  assume a: "utf8_valid p \<and> \<not> (nt \<and> prefix ''/'' p)"
  then have u: "unquote (percent_encode p) = p" by (simp add: unquote_percent_encode)
  have e: "prefix ''file://'' (encode p)" "drop 7 (encode p) = percent_encode p" "encode p \<noteq> []"
    by (simp_all add: encode_def)
  have "\<not> prefix ''/Volumes/'' p" if "\<not> prefix ''/'' p"
    using that by (auto simp: prefix_def)
  then have r: "decode_reference nt (PyStr (encode p)) = Some p"
    using a by (auto simp: decode_reference_def e u volume_form_def)
  have "decode_file_url nt (PyStr (encode p)) = Some p"
    using decode_file_url_try_reference[of nt "PyStr (encode p)"] r
    by (simp add: decode_file_url_def)
  moreover have "decode_apple_file_path nt (PyStr (encode p)) = Some p"
    using decode_apple_file_path_try_reference[of nt "PyStr (encode p)"] r e(3)
    by (simp add: decode_apple_file_path_def)
  ultimately show "decode_file_url nt (PyStr (encode p)) = Some p
     \<and> decode_apple_file_path nt (PyStr (encode p)) = Some p"
    by simp
qed

text \<open>
  The theorem at a path with a space and a two-byte character, and at a drive path under
  the Windows convention.
\<close>

theorem decode_encode_roundtrip_witness:
  "utf8_valid song_path \<and> \<not> (False \<and> prefix ''/'' song_path)
   \<and> decode_file_url False (PyStr ''file:///Users/me/Music/My%20Song%20%C3%A9.mp3'') = Some song_path
   \<and> utf8_valid ''C:/Music/a b.mp3'' \<and> \<not> (True \<and> prefix ''/'' ''C:/Music/a b.mp3'')
   \<and> decode_file_url True (PyStr (encode ''C:/Music/a b.mp3'')) = Some ''C:/Music/a b.mp3''"
proof -
  have h1: "utf8_valid song_path \<and> \<not> (False \<and> prefix ''/'' song_path)"
    by (simp add: utf8_valid_song_path)
  have v: "utf8_valid ''C:/Music/a b.mp3''" by code_simp
  have h2: "utf8_valid ''C:/Music/a b.mp3'' \<and> \<not> (True \<and> prefix ''/'' ''C:/Music/a b.mp3'')"
    using v by simp
  have r1: "decode_file_url False (PyStr (encode song_path)) = Some song_path"
    using mp[OF decode_encode_roundtrip[of song_path False] h1] by simp
  have r2: "decode_file_url True (PyStr (encode ''C:/Music/a b.mp3'')) = Some ''C:/Music/a b.mp3''"
    using mp[OF decode_encode_roundtrip[of "''C:/Music/a b.mp3''" True] h2] by simp
  show ?thesis
    using h1 h2 r1 r2 by (simp only: encode_song_path) simp
qed

text \<open>
  The claim as stated fails under the Windows convention at the path \<open>/music/a.mp3\<close>: the
  decoder returns \<open>music/a.mp3\<close>.
\<close>

theorem decode_encode_windows_counterexample:
  "utf8_valid ''/music/a.mp3''
   \<and> encode ''/music/a.mp3'' = ''file:///music/a.mp3''
   \<and> decode_file_url True (PyStr (encode ''/music/a.mp3'')) = Some ''music/a.mp3''
   \<and> decode_file_url True (PyStr (encode ''/music/a.mp3'')) \<noteq> Some ''/music/a.mp3''"
proof -
  have v: "utf8_valid ''/music/a.mp3''" by code_simp
  have e: "encode ''/music/a.mp3'' = ''file:///music/a.mp3''" by code_simp
  have d: "decode_file_url True (PyStr ''file:///music/a.mp3'') = Some ''music/a.mp3''"
    by (simp add: decode_file_url_def decode_file_url_try_def unquote_def)
  show ?thesis using v d by (simp add: e)
qed

section \<open>Properties of the playlist sync\<close>

lemma match_loop:
  "plex_tracks (foldl (match_track find_track) st paths) = plex_tracks st @ List.map_filter find_track paths
   \<and> missing_tracks (foldl (match_track find_track) st paths) =
       missing_tracks st @ filter (\<lambda>p. find_track p = None) paths
   \<and> sync_matched_tracks (sync_stats (foldl (match_track find_track) st paths)) =
       sync_matched_tracks (sync_stats st) + length (List.map_filter find_track paths)
   \<and> sync_missing_tracks (sync_stats (foldl (match_track find_track) st paths)) =
       sync_missing_tracks (sync_stats st) + length (filter (\<lambda>p. find_track p = None) paths)
   \<and> sync_total_tracks (sync_stats (foldl (match_track find_track) st paths)) =
       sync_total_tracks (sync_stats st)"
proof (induction paths arbitrary: st)
  case Nil
  show ?case by (simp add: List.map_filter_simps)
next
  case (Cons p ps)
  show ?case
  proof (cases "find_track p")
    case None
    then have "match_track find_track st p =
        st\<lparr>missing_tracks := missing_tracks st @ [p],
           sync_stats := (sync_stats st)\<lparr>sync_missing_tracks := sync_missing_tracks (sync_stats st) + 1\<rparr>\<rparr>"
      by (simp add: match_track_def)
    with None Cons.IH[of "match_track find_track st p"] show ?thesis
      by (simp add: List.map_filter_simps)
  next
    case (Some t)
    then have "match_track find_track st p =
        st\<lparr>plex_tracks := plex_tracks st @ [t],
           sync_stats := (sync_stats st)\<lparr>sync_matched_tracks := sync_matched_tracks (sync_stats st) + 1\<rparr>\<rparr>"
      by (simp add: match_track_def)
    with Some Cons.IH[of "match_track find_track st p"] show ?thesis
      by (simp add: List.map_filter_simps)
  qed
qed

lemma map_filter_length:
  "length (List.map_filter f xs) + length (filter (\<lambda>p. f p = None) xs) = length xs"
  by (induction xs) (auto simp: List.map_filter_simps split: option.splits)

lemma sync_playlist_unfold:
  "sync_playlist bn lower find_track creates playlist_tracks sp name =
     \<lparr>result_stats = \<lparr>sync_total_tracks = length (playlist_tracks name),
          sync_matched_tracks = length (List.map_filter find_track (playlist_tracks name)),
          sync_missing_tracks = length (filter (\<lambda>p. find_track p = None) (playlist_tracks name))\<rparr>,
       result_playlists =
         (if List.map_filter find_track (playlist_tracks name) \<noteq> []
          then snd (create_playlist lower creates name
                      (List.map_filter find_track (playlist_tracks name)) sp)
          else sp),
       result_warnings = missing_report bn (filter (\<lambda>p. find_track p = None) (playlist_tracks name))\<rparr>"
proof -
  let ?init = "\<lparr>sync_stats = \<lparr>sync_total_tracks = length (playlist_tracks name),
                                sync_matched_tracks = 0, sync_missing_tracks = 0\<rparr>,
                 plex_tracks = [], missing_tracks = []\<rparr>"
  let ?st = "foldl (match_track find_track) ?init (playlist_tracks name)"
  note l = match_loop[where find_track = find_track and st = ?init and paths = "playlist_tracks name"]
  have a: "plex_tracks ?st = List.map_filter find_track (playlist_tracks name)"
    using l by simp
  have b: "missing_tracks ?st = filter (\<lambda>p. find_track p = None) (playlist_tracks name)"
    using l by simp
  have c: "sync_stats ?st = \<lparr>sync_total_tracks = length (playlist_tracks name),
          sync_matched_tracks = length (List.map_filter find_track (playlist_tracks name)),
          sync_missing_tracks = length (filter (\<lambda>p. find_track p = None) (playlist_tracks name))\<rparr>"
    using l by simp
  show ?thesis
    unfolding sync_playlist_def Let_def a b c by simp
qed

lemma missing_report_items:
  "filter is_item (missing_report bn missing) = map (\<lambda>p. MissingItem (bn p)) (take 10 missing)
   \<and> filter is_overflow (missing_report bn missing) =
       (if length missing > 10 then [AndMore (length missing - 10)] else [])"
proof -
  have "filter is_item (map (\<lambda>p. MissingItem (bn p)) xs) = map (\<lambda>p. MissingItem (bn p)) xs"
      "filter is_overflow (map (\<lambda>p. MissingItem (bn p)) xs) = []" for xs
    by (induction xs) (simp_all add: is_item_def is_overflow_def)
  then show ?thesis
    by (simp add: missing_report_def is_item_def is_overflow_def)
qed

lemma filter_delete_first: "filter P (delete_first P xs) = tl (filter P xs)"
  by (induction xs) simp_all

lemma tl_short: "length xs \<le> 1 \<Longrightarrow> tl xs = []"
  by (cases xs) simp_all

text \<open>
  Claim C7, amended. When the source playlist has \<open>n\<close> paths of which \<open>k\<close> resolve to
  managed tracks: \<open>matched_tracks = k\<close> and \<open>missing_tracks = n - k\<close>. If \<open>k \<ge> 1\<close> and the
  managed library accepts the creation, the first existing playlist whose title equals
  the requested name up to case is deleted and a playlist of the requested name with
  exactly the \<open>k\<close> resolved tracks, in source order, is added after the others; when at
  most one existing playlist had that name up to case, the new playlist is afterwards the
  only one of that name, so the managed playlist is created or replaced. If \<open>k \<ge> 1\<close> and
  the managed library rejects the creation, the first such playlist is deleted and none
  is created. If \<open>k = 0\<close> no playlist is created, replaced or deleted. The missing paths
  are reported by the basenames of the first ten and, beyond ten, the count of the rest.
\<close>

theorem sync_playlist_result:
  "sync_total_tracks (result_stats (sync_playlist bn lower find_track creates playlist_tracks sp name))
     = length (playlist_tracks name)
   \<and> sync_matched_tracks (result_stats (sync_playlist bn lower find_track creates playlist_tracks sp name))
     = length (List.map_filter find_track (playlist_tracks name))
   \<and> sync_missing_tracks (result_stats (sync_playlist bn lower find_track creates playlist_tracks sp name))
     = length (playlist_tracks name) - length (List.map_filter find_track (playlist_tracks name))
   \<and> (List.map_filter find_track (playlist_tracks name) \<noteq> []
        \<and> creates name (List.map_filter find_track (playlist_tracks name))
      \<longrightarrow> result_playlists (sync_playlist bn lower find_track creates playlist_tracks sp name) =
            delete_first (\<lambda>(playlist_title, items). lower playlist_title = lower name) sp
            @ [(name, List.map_filter find_track (playlist_tracks name))])
   \<and> (List.map_filter find_track (playlist_tracks name) \<noteq> []
        \<and> creates name (List.map_filter find_track (playlist_tracks name))
        \<and> length (filter (\<lambda>(playlist_title, items). lower playlist_title = lower name) sp) \<le> 1
      \<longrightarrow> filter (\<lambda>(playlist_title, items). lower playlist_title = lower name)
              (result_playlists (sync_playlist bn lower find_track creates playlist_tracks sp name))
            = [(name, List.map_filter find_track (playlist_tracks name))])
   \<and> (List.map_filter find_track (playlist_tracks name) \<noteq> []
        \<and> \<not> creates name (List.map_filter find_track (playlist_tracks name))
      \<longrightarrow> result_playlists (sync_playlist bn lower find_track creates playlist_tracks sp name) =
            delete_first (\<lambda>(playlist_title, items). lower playlist_title = lower name) sp)
   \<and> (List.map_filter find_track (playlist_tracks name) = []
      \<longrightarrow> result_playlists (sync_playlist bn lower find_track creates playlist_tracks sp name) = sp)
   \<and> filter is_item (result_warnings (sync_playlist bn lower find_track creates playlist_tracks sp name))
       = map (\<lambda>p. MissingItem (bn p))
           (take 10 (filter (\<lambda>p. find_track p = None) (playlist_tracks name)))
   \<and> filter is_overflow (result_warnings (sync_playlist bn lower find_track creates playlist_tracks sp name))
       = (if length (playlist_tracks name) - length (List.map_filter find_track (playlist_tracks name)) > 10
          then [AndMore (length (playlist_tracks name)
                  - length (List.map_filter find_track (playlist_tracks name)) - 10)]
          else [])"
proof -
  have m: "length (filter (\<lambda>p. find_track p = None) (playlist_tracks name)) =
      length (playlist_tracks name) - length (List.map_filter find_track (playlist_tracks name))"
    using map_filter_length[of find_track "playlist_tracks name"] by simp
  show ?thesis
    unfolding sync_playlist_unfold
    using missing_report_items[of bn "filter (\<lambda>p. find_track p = None) (playlist_tracks name)"]
    by (simp add: m create_playlist_def server_create_playlist_def filter_delete_first tl_short)
qed

lemma find_examples:
  "find_track_by_filename posix_basename posix_splitext_root library_search ''/music/a.mp3'' = Some track_a"
  "find_track_by_filename posix_basename posix_splitext_root library_search ''/music/missing.mp3'' = None"
  "find_track_by_filename posix_basename posix_splitext_root library_search ''/music/c.mp3'' = Some track_c"
proof -
  have bn: "posix_basename ''/music/a.mp3'' = ''a.mp3''" "posix_basename ''/mnt/music/a.mp3'' = ''a.mp3''"
      "posix_basename ''/music/c.mp3'' = ''c.mp3''" "posix_basename ''/mnt/music/c.mp3'' = ''c.mp3''"
      "posix_basename ''/music/missing.mp3'' = ''missing.mp3''"
      "posix_basename ''a.mp3'' = ''a.mp3''" "posix_basename ''c.mp3'' = ''c.mp3''"
      "posix_basename ''missing.mp3'' = ''missing.mp3''"
    by (simp_all add: posix_basename_def)
  have sx: "posix_splitext_root ''a.mp3'' = ''a''" "posix_splitext_root ''c.mp3'' = ''c''"
      "posix_splitext_root ''missing.mp3'' = ''missing''"
    by (simp_all add: posix_splitext_root_def bn)
  have tk: "title track_a = ''a''" "title track_c = ''c''"
      "media track_a = Some [[Some ''/mnt/music/a.mp3'']]"
      "media track_c = Some [[Some ''/mnt/music/c.mp3'']]"
    by (simp_all add: track_a_def track_c_def)
  show "find_track_by_filename posix_basename posix_splitext_root library_search ''/music/a.mp3'' = Some track_a"
    by (simp add: find_track_by_filename_def find_track_by_filename_try_def library_search_def bn sx tk)
  show "find_track_by_filename posix_basename posix_splitext_root library_search ''/music/missing.mp3'' = None"
    by (simp add: find_track_by_filename_def find_track_by_filename_try_def library_search_def bn sx tk)
  show "find_track_by_filename posix_basename posix_splitext_root library_search ''/music/c.mp3'' = Some track_c"
    by (simp add: find_track_by_filename_def find_track_by_filename_try_def library_search_def bn sx tk)
qed

text \<open>
  The theorem at scenario 2 (three paths, two resolve: a playlist of exactly two members in
  source order that is the only one named \<open>Mix\<close> up to case, \<open>missing_tracks = 1\<close>), at the
  same input with a library that rejects the creation, and at a playlist name the source
  does not know.
\<close>

theorem sync_playlist_result_witness:
  "result_playlists (sync_playlist posix_basename ascii_lower
       (find_track_by_filename posix_basename posix_splitext_root library_search)
       (\<lambda>n ts. True) mix_paths [(''mix'', [track_c]), (''Other'', [track_a])] ''Mix'')
     = [(''Other'', [track_a]), (''Mix'', [track_a, track_c])]
   \<and> filter (\<lambda>(playlist_title, items). ascii_lower playlist_title = ascii_lower ''Mix'')
       (result_playlists (sync_playlist posix_basename ascii_lower
         (find_track_by_filename posix_basename posix_splitext_root library_search)
         (\<lambda>n ts. True) mix_paths [(''mix'', [track_c]), (''Other'', [track_a])] ''Mix''))
     = [(''Mix'', [track_a, track_c])]
   \<and> result_stats (sync_playlist posix_basename ascii_lower
       (find_track_by_filename posix_basename posix_splitext_root library_search)
       (\<lambda>n ts. True) mix_paths [(''mix'', [track_c]), (''Other'', [track_a])] ''Mix'')
     = \<lparr>sync_total_tracks = 3, sync_matched_tracks = 2, sync_missing_tracks = 1\<rparr>
   \<and> result_playlists (sync_playlist posix_basename ascii_lower
       (find_track_by_filename posix_basename posix_splitext_root library_search)
       (\<lambda>n ts. False) mix_paths [(''mix'', [track_c]), (''Other'', [track_a])] ''Mix'')
     = [(''Other'', [track_a])]
   \<and> result_playlists (sync_playlist posix_basename ascii_lower
       (find_track_by_filename posix_basename posix_splitext_root library_search)
       (\<lambda>n ts. True) mix_paths [(''mix'', [track_c])] ''Nothing'') = [(''mix'', [track_c])]"
proof -
  let ?find = "find_track_by_filename posix_basename posix_splitext_root library_search"
  let ?sp = "[(''mix'', [track_c]), (''Other'', [track_a])]"
  let ?P = "\<lambda>(playlist_title, items). ascii_lower playlist_title = ascii_lower ''Mix''"
  have mf: "List.map_filter ?find (mix_paths ''Mix'') = [track_a, track_c]"
    "length (mix_paths ''Mix'') = 3"
    "List.map_filter ?find (mix_paths ''Nothing'') = []"
    by (simp_all add: mix_paths_def List.map_filter_simps find_examples)
  have lw: "ascii_lower ''Mix'' = ''mix''" "ascii_lower ''mix'' = ''mix''"
    "ascii_lower ''Other'' = ''other''"
    by (simp_all add: ascii_lower_def)
  have d: "delete_first ?P ?sp = [(''Other'', [track_a])]"
    by (simp add: lw)
  have f: "length (filter ?P ?sp) \<le> 1"
    by (simp add: lw)
  have h1: "List.map_filter ?find (mix_paths ''Mix'') \<noteq> []
      \<and> (\<lambda>n ts. True) ''Mix'' (List.map_filter ?find (mix_paths ''Mix''))"
    by (simp add: mf)
  have h1b: "List.map_filter ?find (mix_paths ''Mix'') \<noteq> []
      \<and> (\<lambda>n ts. True) ''Mix'' (List.map_filter ?find (mix_paths ''Mix''))
      \<and> length (filter ?P ?sp) \<le> 1"
    using h1 f by simp
  have h1c: "List.map_filter ?find (mix_paths ''Mix'') \<noteq> []
      \<and> \<not> (\<lambda>n ts. False) ''Mix'' (List.map_filter ?find (mix_paths ''Mix''))"
    by (simp add: mf)
  have h2: "List.map_filter ?find (mix_paths ''Nothing'') = []"
    by (simp add: mf)
  note t = sync_playlist_result[of posix_basename ascii_lower ?find "\<lambda>n ts. True" mix_paths ?sp "''Mix''"]
  note v = sync_playlist_result[of posix_basename ascii_lower ?find "\<lambda>n ts. False" mix_paths ?sp "''Mix''"]
  note u = sync_playlist_result[of posix_basename ascii_lower ?find "\<lambda>n ts. True" mix_paths
      "[(''mix'', [track_c])]" "''Nothing''"]
  have "result_playlists (sync_playlist posix_basename ascii_lower ?find (\<lambda>n ts. True) mix_paths ?sp ''Mix'')
      = delete_first ?P ?sp @ [(''Mix'', List.map_filter ?find (mix_paths ''Mix''))]"
    by (rule mp[OF t[THEN conjunct2, THEN conjunct2, THEN conjunct2, THEN conjunct1] h1])
  then have r1: "result_playlists (sync_playlist posix_basename ascii_lower ?find (\<lambda>n ts. True) mix_paths ?sp ''Mix'')
      = [(''Other'', [track_a]), (''Mix'', [track_a, track_c])]"
    by (simp only: mf d) simp
  have "filter ?P (result_playlists (sync_playlist posix_basename ascii_lower ?find (\<lambda>n ts. True) mix_paths ?sp ''Mix''))
      = [(''Mix'', List.map_filter ?find (mix_paths ''Mix''))]"
    by (rule mp[OF t[THEN conjunct2, THEN conjunct2, THEN conjunct2, THEN conjunct2, THEN conjunct1] h1b])
  then have r1b: "filter ?P (result_playlists (sync_playlist posix_basename ascii_lower ?find (\<lambda>n ts. True) mix_paths ?sp ''Mix''))
      = [(''Mix'', [track_a, track_c])]"
    by (simp only: mf)
  have "result_playlists (sync_playlist posix_basename ascii_lower ?find (\<lambda>n ts. False) mix_paths ?sp ''Mix'')
      = delete_first ?P ?sp"
    by (rule mp[OF v[THEN conjunct2, THEN conjunct2, THEN conjunct2, THEN conjunct2, THEN conjunct2, THEN conjunct1] h1c])
  then have r1c: "result_playlists (sync_playlist posix_basename ascii_lower ?find (\<lambda>n ts. False) mix_paths ?sp ''Mix'')
      = [(''Other'', [track_a])]"
    by (simp only: d)
  have r2: "result_stats (sync_playlist posix_basename ascii_lower ?find (\<lambda>n ts. True) mix_paths ?sp ''Mix'')
     = \<lparr>sync_total_tracks = 3, sync_matched_tracks = 2, sync_missing_tracks = 1\<rparr>"
    using t[THEN conjunct1] t[THEN conjunct2, THEN conjunct1]
      t[THEN conjunct2, THEN conjunct2, THEN conjunct1]
    by (simp add: mf)
  have r3: "result_playlists (sync_playlist posix_basename ascii_lower ?find (\<lambda>n ts. True) mix_paths
      [(''mix'', [track_c])] ''Nothing'') = [(''mix'', [track_c])]"
    by (rule mp[OF u[THEN conjunct2, THEN conjunct2, THEN conjunct2, THEN conjunct2, THEN conjunct2, THEN conjunct2, THEN conjunct1] h2])
  show ?thesis using r1 r1b r1c r2 r3 by simp
qed

text \<open>
  The claim as stated fails in three ways. When no path resolves, the existing playlist
  keeps its member and no playlist of zero members is created. When two existing playlists
  have the requested name up to case, only the first is deleted and the second stays, with
  its old member, beside the new one. When the managed library rejects the creation, the
  existing playlist is already deleted and no playlist of that name is left.
\<close>

theorem sync_playlist_created_replaced_counterexample:
  "result_playlists (sync_playlist posix_basename ascii_lower
       (find_track_by_filename posix_basename posix_splitext_root library_search)
       (\<lambda>n ts. True) (\<lambda>n. [''/music/missing.mp3'']) [(''Mix'', [track_c])] ''Mix'')
     = [(''Mix'', [track_c])]
   \<and> result_playlists (sync_playlist posix_basename ascii_lower
       (find_track_by_filename posix_basename posix_splitext_root library_search)
       (\<lambda>n ts. True) mix_paths [(''MIX'', [track_c]), (''Mix'', [track_c])] ''Mix'')
     = [(''Mix'', [track_c]), (''Mix'', [track_a, track_c])]
   \<and> result_playlists (sync_playlist posix_basename ascii_lower
       (find_track_by_filename posix_basename posix_splitext_root library_search)
       (\<lambda>n ts. False) mix_paths [(''mix'', [track_c]), (''Other'', [track_a])] ''Mix'')
     = [(''Other'', [track_a])]"
proof -
  let ?find = "find_track_by_filename posix_basename posix_splitext_root library_search"
  have mf: "List.map_filter ?find (mix_paths ''Mix'') = [track_a, track_c]"
    "List.map_filter ?find [''/music/missing.mp3''] = []"
    by (simp_all add: mix_paths_def List.map_filter_simps find_examples)
  have lw: "ascii_lower ''Mix'' = ''mix''" "ascii_lower ''mix'' = ''mix''"
    "ascii_lower ''MIX'' = ''mix''" "ascii_lower ''Other'' = ''other''"
    by (simp_all add: ascii_lower_def)
  show ?thesis
    by (simp add: sync_playlist_unfold mf lw create_playlist_def server_create_playlist_def
        List.map_filter_simps find_examples)
qed

section \<open>Properties of the playlist lookup of the plist export adapter\<close>

lemma set_dict_set: "set (dict_set d k v) \<subseteq> insert (k, v) (set d)"
  by (induction d) (auto split: if_splits)

lemma process_playlist_nonempty:
  assumes "\<forall>e\<in>set (playlists client). snd e \<noteq> []"
  shows "\<forall>e\<in>set (playlists (process_playlist client playlist)). snd e \<noteq> []"
proof -
  have "\<forall>e\<in>set (dict_set (playlists client) n ts). snd e \<noteq> []" if "ts \<noteq> []" for n ts
    using assms that set_dict_set[of "playlists client" n ts] by auto
  then show ?thesis
    using assms by (simp add: process_playlist_def Let_def)
qed

lemma process_playlists_nonempty:
  "\<forall>e\<in>set (playlists client). snd e \<noteq> [] \<Longrightarrow>
   \<forall>e\<in>set (playlists (process_playlists client playlists_list)). snd e \<noteq> []"
  unfolding process_playlists_def
proof (induction playlists_list arbitrary: client)
  case Nil
  then show ?case by simp
next
  case (Cons pl pls)
  have "\<forall>e\<in>set (playlists (process_playlist client pl)). snd e \<noteq> []"
    using Cons.prems by (rule process_playlist_nonempty)
  then show ?case using Cons.IH by simp
qed

lemma process_tracks_playlists: "playlists (process_tracks nt client tracks_dict) = playlists client"
  unfolding process_tracks_def
proof (induction tracks_dict arbitrary: client)
  case Nil
  show ?case by simp
next
  case (Cons e es)
  have "playlists (process_track_entry nt client e) = playlists client"
    by (simp add: process_track_entry_def Let_def case_prod_unfold split: option.splits)
  then show ?case using Cons.IH by simp
qed

text \<open>Every playlist the adapter stores has at least one track.\<close>

lemma load_library_nonempty:
  "\<forall>e\<in>set (playlists (load_library nt tracks_dict playlists_list)). snd e \<noteq> []"
  unfolding load_library_def
  by (rule process_playlists_nonempty) (simp add: process_tracks_playlists)

text \<open>
  Claim C10. \<open>get_playlist_tracks\<close> resolves a name in three tiers: the playlist stored
  under exactly that name; failing that, the first stored playlist whose name is equal up
  to case; failing that, the first stored playlist whose name contains the query up to
  case. It returns the empty list when no tier matches, and, the stored playlists being
  non-empty, only then. A sync works on whatever list the lookup returns.
\<close>

theorem get_playlist_tracks_tiers:
  "(distinct (map fst pls) \<and> (q, ts) \<in> set pls \<longrightarrow> get_playlist_tracks lower pls q = ts)
   \<and> (q \<notin> fst ` set pls \<and> i < length pls \<and> lower (fst (pls ! i)) = lower q
        \<and> (\<forall>j<i. lower (fst (pls ! j)) \<noteq> lower q)
        \<longrightarrow> get_playlist_tracks lower pls q = snd (pls ! i))
   \<and> (q \<notin> fst ` set pls \<and> (\<forall>e\<in>set pls. lower (fst e) \<noteq> lower q)
        \<and> i < length pls \<and> sublist (lower q) (lower (fst (pls ! i)))
        \<and> (\<forall>j<i. \<not> sublist (lower q) (lower (fst (pls ! j))))
        \<longrightarrow> get_playlist_tracks lower pls q = snd (pls ! i))
   \<and> ((\<forall>e\<in>set pls. \<not> sublist (lower q) (lower (fst e))) \<longrightarrow> get_playlist_tracks lower pls q = [])
   \<and> ((\<forall>e\<in>set pls. snd e \<noteq> []) \<and> get_playlist_tracks lower pls q = []
        \<longrightarrow> (\<forall>e\<in>set pls. fst e \<noteq> q \<and> lower (fst e) \<noteq> lower q
                              \<and> \<not> sublist (lower q) (lower (fst e))))
   \<and> sync_total_tracks (result_stats
         (sync_playlist bn lower find_track creates (get_playlist_tracks lower pls) sp q))
       = length (get_playlist_tracks lower pls q)"
proof -
  have t1: "get_playlist_tracks lower pls q = ts" if "distinct (map fst pls)" "(q, ts) \<in> set pls"
    using that by (simp add: get_playlist_tracks_def)
  have none: "map_of pls q = None" if "q \<notin> fst ` set pls"
    using that by (simp add: map_of_eq_None_iff)
  have t2: "get_playlist_tracks lower pls q = snd (pls ! i)"
    if "q \<notin> fst ` set pls" "i < length pls" "lower (fst (pls ! i)) = lower q"
       "\<forall>j<i. lower (fst (pls ! j)) \<noteq> lower q"
  proof -
    have "find (\<lambda>(name, tracks). lower name = lower q) pls = Some (pls ! i)"
      using that(2,3,4) by (intro find_first_index) (auto simp: case_prod_unfold)
    then show ?thesis
      using none[OF that(1)] by (simp add: get_playlist_tracks_def case_prod_unfold)
  qed
  have t3: "get_playlist_tracks lower pls q = snd (pls ! i)"
    if "q \<notin> fst ` set pls" "\<forall>e\<in>set pls. lower (fst e) \<noteq> lower q"
       "i < length pls" "sublist (lower q) (lower (fst (pls ! i)))"
       "\<forall>j<i. \<not> sublist (lower q) (lower (fst (pls ! j)))"
  proof -
    have "find (\<lambda>(name, tracks). lower name = lower q) pls = None"
      using that(2) by (auto simp: find_None_iff)
    moreover have "find (\<lambda>(name, tracks). sublist (lower q) (lower name)) pls = Some (pls ! i)"
      using that(3,4,5) by (intro find_first_index) (auto simp: case_prod_unfold)
    ultimately show ?thesis
      using none[OF that(1)] by (simp add: get_playlist_tracks_def case_prod_unfold)
  qed
  have t4: "get_playlist_tracks lower pls q = []"
    if h: "\<forall>e\<in>set pls. \<not> sublist (lower q) (lower (fst e))"
  proof -
    have ne: "\<forall>e\<in>set pls. lower (fst e) \<noteq> lower q"
      using h by (metis sublist_order.order_refl)
    then have "q \<notin> fst ` set pls" by auto
    moreover have "find (\<lambda>(name, tracks). lower name = lower q) pls = None"
      using ne by (auto simp: find_None_iff)
    moreover have "find (\<lambda>(name, tracks). sublist (lower q) (lower name)) pls = None"
      using h by (auto simp: find_None_iff)
    ultimately show ?thesis
      using none by (simp add: get_playlist_tracks_def)
  qed
  have t5: "\<forall>e\<in>set pls. fst e \<noteq> q \<and> lower (fst e) \<noteq> lower q \<and> \<not> sublist (lower q) (lower (fst e))"
    if ne: "\<forall>e\<in>set pls. snd e \<noteq> []" and r: "get_playlist_tracks lower pls q = []"
  proof -
    have a: "map_of pls q = None"
    proof (cases "map_of pls q")
      case (Some ts)
      then have "(q, ts) \<in> set pls" by (rule map_of_SomeD)
      with ne have "ts \<noteq> []" by auto
      with Some r show ?thesis by (simp add: get_playlist_tracks_def)
    qed simp
    have b: "find (\<lambda>(name, tracks). lower name = lower q) pls = None"
    proof (cases "find (\<lambda>(name, tracks). lower name = lower q) pls")
      case (Some e)
      then have "e \<in> set pls" by (metis find_Some_iff nth_mem)
      with ne have "snd e \<noteq> []" by auto
      with Some a r show ?thesis by (simp add: get_playlist_tracks_def case_prod_unfold)
    qed simp
    have c: "find (\<lambda>(name, tracks). sublist (lower q) (lower name)) pls = None"
    proof (cases "find (\<lambda>(name, tracks). sublist (lower q) (lower name)) pls")
      case (Some e)
      then have "e \<in> set pls" by (metis find_Some_iff nth_mem)
      with ne have "snd e \<noteq> []" by auto
      with Some a b r show ?thesis by (simp add: get_playlist_tracks_def case_prod_unfold)
    qed simp
    have s: "\<forall>e\<in>set pls. \<not> sublist (lower q) (lower (fst e))"
      using c by (auto simp: find_None_iff)
    then have "\<forall>e\<in>set pls. lower (fst e) \<noteq> lower q"
      by (metis sublist_order.order_refl)
    then show ?thesis using s by auto
  qed
  have t6: "sync_total_tracks (result_stats
         (sync_playlist bn lower find_track creates (get_playlist_tracks lower pls) sp q))
       = length (get_playlist_tracks lower pls q)"
    by (simp add: sync_playlist_unfold)
  show ?thesis using t1 t2 t3 t4 t5 t6 by blast
qed

text \<open>
  The theorem at three stored playlists: an exact match, a match up to case, a playlist
  whose name merely contains the query, and a query no tier matches.
\<close>

theorem get_playlist_tracks_tiers_witness:
  "get_playlist_tracks ascii_lower example_playlists ''Chill'' = [''/music/c.mp3'', ''/music/a.mp3'']
   \<and> get_playlist_tracks ascii_lower example_playlists ''ROAD TRIP'' = [''/music/b.mp3'']
   \<and> get_playlist_tracks ascii_lower example_playlists ''Trip'' = [''/music/a.mp3'']
   \<and> get_playlist_tracks ascii_lower example_playlists ''Jazz'' = []
   \<and> \<not> sublist (ascii_lower ''Jazz'') (ascii_lower ''Chill'')"
proof -
  have lw: "ascii_lower ''Chill'' = ''chill''" "ascii_lower ''ROAD TRIP'' = ''road trip''"
      "ascii_lower ''Trip'' = ''trip''" "ascii_lower ''Jazz'' = ''jazz''"
      "ascii_lower ''Road Trip 2023'' = ''road trip 2023''" "ascii_lower ''road trip'' = ''road trip''"
    by (simp_all add: ascii_lower_def)
  have ex: "example_playlists ! 0 = (''Road Trip 2023'', [''/music/a.mp3''])"
      "example_playlists ! 1 = (''road trip'', [''/music/b.mp3''])"
      "example_playlists ! Suc 0 = (''road trip'', [''/music/b.mp3''])"
      "example_playlists ! 2 = (''Chill'', [''/music/c.mp3'', ''/music/a.mp3''])"
      "length example_playlists = 3"
      "set example_playlists = {(''Road Trip 2023'', [''/music/a.mp3'']),
         (''road trip'', [''/music/b.mp3'']), (''Chill'', [''/music/c.mp3'', ''/music/a.mp3''])}"
      "distinct (map fst example_playlists)"
    by (simp_all add: example_playlists_def)
  have h1: "distinct (map fst example_playlists)
      \<and> (''Chill'', [''/music/c.mp3'', ''/music/a.mp3'']) \<in> set example_playlists"
    by (simp add: ex)
  have h2: "''ROAD TRIP'' \<notin> fst ` set example_playlists \<and> 1 < length example_playlists
      \<and> ascii_lower (fst (example_playlists ! 1)) = ascii_lower ''ROAD TRIP''
      \<and> (\<forall>j<1. ascii_lower (fst (example_playlists ! j)) \<noteq> ascii_lower ''ROAD TRIP'')"
    by (simp add: ex lw)
  have h3: "''Trip'' \<notin> fst ` set example_playlists
      \<and> (\<forall>e\<in>set example_playlists. ascii_lower (fst e) \<noteq> ascii_lower ''Trip'')
      \<and> 0 < length example_playlists
      \<and> sublist (ascii_lower ''Trip'') (ascii_lower (fst (example_playlists ! 0)))
      \<and> (\<forall>j<0. \<not> sublist (ascii_lower ''Trip'') (ascii_lower (fst (example_playlists ! j))))"
    by (simp add: ex lw sublist_Cons_right)
  have h4: "\<forall>e\<in>set example_playlists. \<not> sublist (ascii_lower ''Jazz'') (ascii_lower (fst e))"
    by (simp add: ex lw sublist_Cons_right)
  note t1 = get_playlist_tracks_tiers[of example_playlists "''Chill''"
      "[''/music/c.mp3'', ''/music/a.mp3'']" ascii_lower 0, THEN conjunct1]
  note t2 = get_playlist_tracks_tiers[of example_playlists "''ROAD TRIP''" "[]" ascii_lower 1,
      THEN conjunct2, THEN conjunct1]
  note t3 = get_playlist_tracks_tiers[of example_playlists "''Trip''" "[]" ascii_lower 0,
      THEN conjunct2, THEN conjunct2, THEN conjunct1]
  note t4 = get_playlist_tracks_tiers[of example_playlists "''Jazz''" "[]" ascii_lower 0,
      THEN conjunct2, THEN conjunct2, THEN conjunct2, THEN conjunct1]
  have r1: "get_playlist_tracks ascii_lower example_playlists ''Chill'' =
      [''/music/c.mp3'', ''/music/a.mp3'']"
    by (rule mp[OF t1 h1])
  have "get_playlist_tracks ascii_lower example_playlists ''ROAD TRIP'' = snd (example_playlists ! 1)"
    by (rule mp[OF t2 h2])
  then have r2: "get_playlist_tracks ascii_lower example_playlists ''ROAD TRIP'' = [''/music/b.mp3'']"
    by (simp add: ex)
  have "get_playlist_tracks ascii_lower example_playlists ''Trip'' = snd (example_playlists ! 0)"
    by (rule mp[OF t3 h3])
  then have r3: "get_playlist_tracks ascii_lower example_playlists ''Trip'' = [''/music/a.mp3'']"
    by (simp add: ex)
  have r4: "get_playlist_tracks ascii_lower example_playlists ''Jazz'' = []"
    by (rule mp[OF t4 h4])
  note t5 = get_playlist_tracks_tiers[of example_playlists "''Jazz''" "[]" ascii_lower 0,
      THEN conjunct2, THEN conjunct2, THEN conjunct2, THEN conjunct2, THEN conjunct1]
  have h5: "(\<forall>e\<in>set example_playlists. snd e \<noteq> [])
      \<and> get_playlist_tracks ascii_lower example_playlists ''Jazz'' = []"
    using r4 by (simp add: ex)
  have "\<forall>e\<in>set example_playlists. fst e \<noteq> ''Jazz'' \<and> ascii_lower (fst e) \<noteq> ascii_lower ''Jazz''
      \<and> \<not> sublist (ascii_lower ''Jazz'') (ascii_lower (fst e))"
    by (rule mp[OF t5 h5])
  then have r5: "\<not> sublist (ascii_lower ''Jazz'') (ascii_lower ''Chill'')"
    by (simp add: ex)
  show ?thesis
    using r1 r2 r3 r4 r5 by simp
qed

end
